theory Spec2Isabelle
  imports Main
begin

section \<open>JavaScript values\<close>

text \<open>
  The program of \<^verbatim>\<open>curriculum.js\<close> works on JSON-like data. A value is one of the
  cases of \<open>jsval\<close>. Numbers are the integer-valued ones (\<open>JNum n\<close>), of the
  magnitudes that \<^verbatim>\<open>String\<close> writes in plain decimal (below \<open>10\<^sup>2\<^sup>1\<close>); text is a
  \<open>string\<close>, read as the UTF-8 bytes of the JavaScript string, which is what the
  exported file holds. An object \<open>JObj kvs\<close> lists its own enumerable properties in the
  order in which \<^verbatim>\<open>Object.keys\<close> enumerates them. \<open>JFun t\<close> is a built-in function,
  such as the ones every object inherits (\<^verbatim>\<open>constructor\<close>, \<^verbatim>\<open>toString\<close>, ...); \<open>t\<close> is
  the text that \<^verbatim>\<open>String\<close> gives for it.
\<close>

datatype jsval =
    JUndefined
  | JNull
  | JBool bool
  | JNum int
  | JStr string
  | JArr "jsval list"
  | JObj "(string \<times> jsval) list"
  | JFun string

text \<open>The faults the program can raise.\<close>

datatype error = TypeError | RangeError

text \<open>\<^verbatim>\<open>!v\<close> is \<open>\<not> truthy v\<close>.\<close>

fun truthy :: "jsval \<Rightarrow> bool" where
  "truthy JUndefined = False"
| "truthy JNull = False"
| "truthy (JBool b) = b"
| "truthy (JNum n) = (n \<noteq> 0)"
| "truthy (JStr s) = (s \<noteq> [])"
| "truthy (JArr xs) = True"
| "truthy (JObj kvs) = True"
| "truthy (JFun t) = True"

text \<open>\<^verbatim>\<open>v == null\<close>: the value is \<^verbatim>\<open>null\<close> or \<^verbatim>\<open>undefined\<close>.\<close>

fun nullish :: "jsval \<Rightarrow> bool" where
  "nullish JUndefined = True"
| "nullish JNull = True"
| "nullish v = False"

fun typeof :: "jsval \<Rightarrow> string" where
  "typeof JUndefined = ''undefined''"
| "typeof JNull = ''object''"
| "typeof (JBool b) = ''boolean''"
| "typeof (JNum n) = ''number''"
| "typeof (JStr s) = ''string''"
| "typeof (JArr xs) = ''object''"
| "typeof (JObj kvs) = ''object''"
| "typeof (JFun t) = ''function''"

fun isArray :: "jsval \<Rightarrow> bool" where
  "isArray (JArr xs) = True"
| "isArray v = False"

text \<open>The elements of an array value (used only where \<open>isArray\<close> has been tested).\<close>

fun elems :: "jsval \<Rightarrow> jsval list" where
  "elems (JArr xs) = xs"
| "elems v = []"

subsection \<open>Text\<close>

text \<open>\<^verbatim>\<open>parts.join(sep)\<close> on an array of strings.\<close>

fun join :: "string \<Rightarrow> string list \<Rightarrow> string" where
  "join sep [] = []"
| "join sep [x] = x"
| "join sep (x # y # ys) = x @ sep @ join sep (y # ys)"

text \<open>\<^verbatim>\<open>s.replace(/c/g, r)\<close> for a single character \<open>c\<close>.\<close>

fun replaceAll :: "char \<Rightarrow> string \<Rightarrow> string \<Rightarrow> string" where
  "replaceAll c r [] = []"
| "replaceAll c r (x # xs) = (if x = c then r else [x]) @ replaceAll c r xs"

text \<open>\<^verbatim>\<open>/[cs]/.test(s)\<close> for a character class \<open>cs\<close>: scan for the first member.\<close>

fun testClass :: "char list \<Rightarrow> string \<Rightarrow> bool" where
  "testClass cs [] = False"
| "testClass cs (x # xs) = (if x \<in> set cs then True else testClass cs xs)"

text \<open>\<^verbatim>\<open>s.padStart(n, c)\<close> with a one-character filler.\<close>

definition padStart :: "nat \<Rightarrow> char \<Rightarrow> string \<Rightarrow> string" where
  "padStart n c s = replicate (n - length s) c @ s"

text \<open>Decimal digits of a natural number, and \<^verbatim>\<open>String(n)\<close> for an integer.\<close>

definition digit :: "nat \<Rightarrow> char" where
  "digit d = ''0123456789'' ! d"

fun decimal :: "nat \<Rightarrow> string" where
  "decimal n = (if n < 10 then [digit n] else decimal (n div 10) @ [digit (n mod 10)])"

declare decimal.simps [simp del]

definition Number_toString :: "int \<Rightarrow> string" where
  "Number_toString n = (if n < 0 then CHR ''-'' # decimal (nat (- n)) else decimal (nat n))"

text \<open>
  \<^verbatim>\<open>String(v)\<close>. An array is its elements joined by commas, \<^verbatim>\<open>null\<close> and
  \<^verbatim>\<open>undefined\<close> elements giving the empty text; a plain object is
  \<^verbatim>\<open>[object Object]\<close>; a built-in function is its text.
\<close>

fun toString :: "jsval \<Rightarrow> string" where
  "toString JUndefined = ''undefined''"
| "toString JNull = ''null''"
| "toString (JBool b) = (if b then ''true'' else ''false'')"
| "toString (JNum n) = Number_toString n"
| "toString (JStr s) = s"
| "toString (JArr xs) = join '','' (map (\<lambda>x. if nullish x then [] else toString x) xs)"
| "toString (JObj kvs) = ''[object Object]''"
| "toString (JFun t) = t"

subsection \<open>Properties\<close>

text \<open>
  An index-like property name: the decimal numeral of a natural number, with no
  leading zero.
\<close>

definition digitVal :: "char \<Rightarrow> nat option" where
  "digitVal c =
     (let n = (of_char c :: nat) in if 48 \<le> n \<and> n \<le> 57 then Some (n - 48) else None)"

fun digitsVal :: "nat \<Rightarrow> string \<Rightarrow> nat option" where
  "digitsVal acc [] = Some acc"
| "digitsVal acc (c # cs) =
     (case digitVal c of None \<Rightarrow> None | Some d \<Rightarrow> digitsVal (10 * acc + d) cs)"

definition arrayIndex :: "string \<Rightarrow> nat option" where
  "arrayIndex k =
     (if k = [] then None
      else case digitsVal 0 k of
             None \<Rightarrow> None
           | Some i \<Rightarrow> if decimal i = k then Some i else None)"

text \<open>
  The properties a value has of its own, as far as the model lists them: the
  properties of an object, and \<^verbatim>\<open>length\<close> and the indices of an array and of a
  string (for a string the model is exact on ASCII text). \<open>None\<close> means that the
  value has no such property, which differs from a property whose value is
  \<^verbatim>\<open>undefined\<close>.
\<close>

fun ownProp :: "jsval \<Rightarrow> string \<Rightarrow> jsval option" where
  "ownProp (JObj kvs) k = map_of kvs k"
| "ownProp (JArr xs) k =
     (if k = ''length'' then Some (JNum (int (length xs)))
      else case arrayIndex k of
             None \<Rightarrow> None
           | Some i \<Rightarrow> if i < length xs then Some (xs ! i) else None)"
| "ownProp (JStr s) k =
     (if k = ''length'' then Some (JNum (int (length s)))
      else case arrayIndex k of
             None \<Rightarrow> None
           | Some i \<Rightarrow> if i < length s then Some (JStr [s ! i]) else None)"
| "ownProp v k = None"

text \<open>
  \<^verbatim>\<open>v[k]\<close> in general, on a value that is neither \<^verbatim>\<open>null\<close> nor \<^verbatim>\<open>undefined\<close>:
  the own property if there is one; otherwise whatever the rest of the lookup
  finds, that is a property inherited through the prototype chain (for a plain
  object those of \<^verbatim>\<open>Object.prototype\<close>: \<^verbatim>\<open>constructor\<close>, \<^verbatim>\<open>toString\<close>,
  \<^verbatim>\<open>hasOwnProperty\<close>, ...) or a property of a built-in kind that \<open>ownProp\<close> does
  not list; otherwise \<^verbatim>\<open>undefined\<close>. Which names the built-in objects define, and
  with which values, belongs to the host: it is the parameter \<open>host\<close>, giving for
  a value and a name what the rest of the lookup finds, or \<open>None\<close>. On \<^verbatim>\<open>null\<close> and
  \<^verbatim>\<open>undefined\<close> the access raises: \<open>readProp\<close> is the access as JavaScript
  evaluates it. This is the read of \<^verbatim>\<open>row[header]\<close>, whose name comes from the data.
\<close>

definition lookupProp :: "(jsval \<Rightarrow> string \<Rightarrow> jsval option) \<Rightarrow> jsval \<Rightarrow> string \<Rightarrow> jsval" where
  "lookupProp host v k =
     (case ownProp v k of
        Some x \<Rightarrow> x
      | None \<Rightarrow> (case host v k of Some x \<Rightarrow> x | None \<Rightarrow> JUndefined))"

definition readProp ::
  "(jsval \<Rightarrow> string \<Rightarrow> jsval option) \<Rightarrow> jsval \<Rightarrow> string \<Rightarrow> error + jsval" where
  "readProp host v k = (if nullish v then Inl TypeError else Inr (lookupProp host v k))"

text \<open>
  The read of a property under one of the names that the program itself spells out:
  \<^verbatim>\<open>docs\<close>, \<^verbatim>\<open>_source\<close>, \<^verbatim>\<open>events\<close>, the raw field names of the Normalizer and
  its canonical names (\<^verbatim>\<open>status\<close>, \<^verbatim>\<open>title\<close>, \<^verbatim>\<open>year\<close>, ...). No built-in object
  of ECMAScript defines a property of any of these names, so this read finds an own
  property or nothing, on every host; \<open>getProp\<close> is used for these names only,
  and only where the source has tested before that the value is neither \<^verbatim>\<open>null\<close>
  nor \<^verbatim>\<open>undefined\<close>. It is \<open>lookupProp\<close> for every name under which the host
  defines nothing (lemma \<open>lookupProp_getProp\<close>).
\<close>

definition getProp :: "jsval \<Rightarrow> string \<Rightarrow> jsval" where
  "getProp v k = (case ownProp v k of None \<Rightarrow> JUndefined | Some x \<Rightarrow> x)"

text \<open>\<^verbatim>\<open>obj[k] = v\<close> on an object under construction: a new key goes last.\<close>

fun setProp :: "(string \<times> jsval) list \<Rightarrow> string \<Rightarrow> jsval \<Rightarrow> (string \<times> jsval) list" where
  "setProp [] k v = [(k, v)]"
| "setProp ((k', v') # kvs) k v =
     (if k' = k then (k, v) # kvs else (k', v') # setProp kvs k v)"

text \<open>\<^verbatim>\<open>Object.keys(v)\<close> for an object or an array.\<close>

fun Object_keys :: "jsval \<Rightarrow> string list" where
  "Object_keys (JObj kvs) = map fst kvs"
| "Object_keys (JArr xs) = map decimal [0..<length xs]"
| "Object_keys v = []"

text \<open>
  \<^verbatim>\<open>xs.map(f)\<close> with a callback that may raise: the first fault ends the whole call.
\<close>

fun mapE :: "('a \<Rightarrow> error + 'b) \<Rightarrow> 'a list \<Rightarrow> error + 'b list" where
  "mapE f [] = Inr []"
| "mapE f (x # xs) =
     (case f x of
        Inl e \<Rightarrow> Inl e
      | Inr y \<Rightarrow> (case mapE f xs of Inl e \<Rightarrow> Inl e | Inr ys \<Rightarrow> Inr (y # ys)))"

section \<open>Dates\<close>

text \<open>
  A \<^verbatim>\<open>Date\<close> holds a time value: milliseconds since the epoch in UTC, or
  \<^verbatim>\<open>NaN\<close> for an invalid date, here \<open>None\<close>. The calendar functions are the ones
  ECMAScript defines on time values.
\<close>

definition msPerDay :: int where
  "msPerDay = 86400000"

definition Day :: "int \<Rightarrow> int" where
  "Day t = t div msPerDay"

definition DayFromYear :: "int \<Rightarrow> int" where
  "DayFromYear y =
     365 * (y - 1970) + (y - 1969) div 4 - (y - 1901) div 100 + (y - 1601) div 400"

text \<open>
  The year of a time value is the largest \<open>y\<close> whose first day is not after the day
  of \<open>t\<close>: computed from the mean year length and corrected by one where needed.
\<close>

definition YearFromTime :: "int \<Rightarrow> int" where
  "YearFromTime t =
     (let d = Day t; y = 1970 + (400 * d) div 146097 in
      if DayFromYear (y + 1) \<le> d then y + 1
      else if d < DayFromYear y then y - 1
      else y)"

definition InLeapYear :: "int \<Rightarrow> bool" where
  "InLeapYear y = (y mod 4 = 0 \<and> (y mod 100 \<noteq> 0 \<or> y mod 400 = 0))"

text \<open>The day of the year on which each month starts (month \<open>0\<close> is January).\<close>

definition monthStart :: "bool \<Rightarrow> nat \<Rightarrow> int" where
  "monthStart leap m =
     [0, 31, 59, 90, 120, 151, 181, 212, 243, 273, 304, 334, 365] ! m
       + (if leap \<and> 2 \<le> m then 1 else 0)"

definition DayWithinYear :: "int \<Rightarrow> int" where
  "DayWithinYear t = Day t - DayFromYear (YearFromTime t)"

text \<open>The month in which day \<open>d\<close> of a year falls: the number of later months already begun.\<close>

definition monthOf :: "bool \<Rightarrow> int \<Rightarrow> nat" where
  "monthOf leap d = length (filter (\<lambda>m. monthStart leap m \<le> d) [1..<12])"

definition MonthFromTime :: "int \<Rightarrow> nat" where
  "MonthFromTime t = monthOf (InLeapYear (YearFromTime t)) (DayWithinYear t)"

definition DateFromTime :: "int \<Rightarrow> int" where
  "DateFromTime t =
     DayWithinYear t - monthStart (InLeapYear (YearFromTime t)) (MonthFromTime t) + 1"

definition HourFromTime :: "int \<Rightarrow> int" where
  "HourFromTime t = (t div 3600000) mod 24"

definition MinFromTime :: "int \<Rightarrow> int" where
  "MinFromTime t = (t div 60000) mod 60"

definition SecFromTime :: "int \<Rightarrow> int" where
  "SecFromTime t = (t div 1000) mod 60"

definition msFromTime :: "int \<Rightarrow> int" where
  "msFromTime t = t mod 1000"

text \<open>A time value beyond 8.64e15 milliseconds from the epoch is no date.\<close>

definition TimeClip :: "int \<Rightarrow> int option" where
  "TimeClip t = (if \<bar>t\<bar> \<le> 8640000000000000 then Some t else None)"

text \<open>
  \<^verbatim>\<open>new Date(v)\<close> with one argument. Text is parsed by \<^verbatim>\<open>Date.parse\<close>, whose
  result on text outside the ECMAScript date-time format is left to the host: the
  parser is the parameter \<open>parse\<close>, giving the time value or \<open>None\<close> for text it
  does not recognise. Other values are converted to a number first; an array or an
  object is converted to text and parsed.
\<close>

fun Date_new :: "(string \<Rightarrow> int option) \<Rightarrow> jsval \<Rightarrow> int option" where
  "Date_new parse (JStr s) = (case parse s of None \<Rightarrow> None | Some t \<Rightarrow> TimeClip t)"
| "Date_new parse (JNum n) = TimeClip n"
| "Date_new parse (JBool b) = Some (if b then 1 else 0)"
| "Date_new parse JNull = Some 0"
| "Date_new parse JUndefined = None"
| "Date_new parse v = (case parse (toString v) of None \<Rightarrow> None | Some t \<Rightarrow> TimeClip t)"

text \<open>
  \<^verbatim>\<open>date.toISOString()\<close>: raises \<^verbatim>\<open>RangeError\<close> on an invalid date. Years outside
  0..9999 are written with a sign and six digits.
\<close>

definition isoYear :: "int \<Rightarrow> string" where
  "isoYear y =
     (if 0 \<le> y \<and> y \<le> 9999 then padStart 4 (CHR ''0'') (decimal (nat y))
      else (if y < 0 then ''-'' else ''+'') @ padStart 6 (CHR ''0'') (decimal (nat \<bar>y\<bar>)))"

definition isoText :: "int \<Rightarrow> string" where
  "isoText t =
     isoYear (YearFromTime t) @ ''-'' @
     padStart 2 (CHR ''0'') (decimal (MonthFromTime t + 1)) @ ''-'' @
     padStart 2 (CHR ''0'') (decimal (nat (DateFromTime t))) @ ''T'' @
     padStart 2 (CHR ''0'') (decimal (nat (HourFromTime t))) @ '':'' @
     padStart 2 (CHR ''0'') (decimal (nat (MinFromTime t))) @ '':'' @
     padStart 2 (CHR ''0'') (decimal (nat (SecFromTime t))) @ ''.'' @
     padStart 3 (CHR ''0'') (decimal (nat (msFromTime t))) @ ''Z''"

definition toISOString :: "int option \<Rightarrow> error + string" where
  "toISOString d = (case d of None \<Rightarrow> Inl RangeError | Some t \<Rightarrow> Inr (isoText t))"

text \<open>
  A host-independent part of \<^verbatim>\<open>Date.parse\<close>, used to evaluate examples: the form
  \<^verbatim>\<open>YYYY-MM-DDTHH:mm:ss.sssZ\<close> that \<^verbatim>\<open>toISOString\<close> writes, which every host reads
  the same way. Any other text is not recognised by it.
\<close>

definition numAt :: "string \<Rightarrow> nat \<Rightarrow> nat \<Rightarrow> nat option" where
  "numAt s i n = digitsVal 0 (take n (drop i s))"

definition DaysInMonth :: "int \<Rightarrow> nat \<Rightarrow> int" where
  "DaysInMonth y m = monthStart (InLeapYear y) (m + 1) - monthStart (InLeapYear y) m"

definition Date_parse_iso :: "string \<Rightarrow> int option" where
  "Date_parse_iso s =
     (if length s = 24 \<and> map (\<lambda>i. s ! i) [4, 7, 10, 13, 16, 19, 23] = ''--T::.Z'' then
        (case (numAt s 0 4, numAt s 5 2, numAt s 8 2, numAt s 11 2, numAt s 14 2,
               numAt s 17 2, numAt s 20 3) of
           (Some y, Some mo, Some d, Some h, Some mi, Some sec, Some ms) \<Rightarrow>
             if 1 \<le> mo \<and> mo \<le> 12 \<and> 1 \<le> d \<and> int d \<le> DaysInMonth (int y) (mo - 1)
                \<and> h \<le> 23 \<and> mi \<le> 59 \<and> sec \<le> 59
             then Some ((DayFromYear (int y) + monthStart (InLeapYear (int y)) (mo - 1)
                          + int d - 1) * msPerDay
                        + int h * 3600000 + int mi * 60000 + int sec * 1000 + int ms)
             else None
         | _ \<Rightarrow> None)
      else None)"

section \<open>The Normalizer: \<^verbatim>\<open>cleanJsonForLLM\<close>\<close>

text \<open>The renaming table, in the order \<^verbatim>\<open>Object.entries\<close> lists it.\<close>

definition KEY_MAP :: "(string \<times> string) list" where
  "KEY_MAP =
     [(''event_title_text'', ''title''),
      (''event_details_text'', ''details''),
      (''event_status_text'', ''status''),
      (''event_location_text'', ''location''),
      (''academic_year_option_academic_years'', ''academic_year''),
      (''year_option_year'', ''year''),
      (''module_option_modules'', ''module''),
      (''speciality_option_speciality'', ''speciality''),
      (''cpp_module_option_speciality'', ''cpp_speciality''),
      (''student_count_number'', ''student_count''),
      (''event_duration_hrs_number'', ''duration_hours''),
      (''online_boolean'', ''is_online''),
      (''cpp_boolean'', ''is_cpp''),
      (''event_canceled_boolean'', ''is_cancelled''),
      (''site_option_sites'', ''site'')]"

text \<open>
  Step 1, one turn of the loop over the table: a source value that is neither
  \<^verbatim>\<open>null\<close> nor \<^verbatim>\<open>undefined\<close> is copied under the new key; under \<^verbatim>\<open>year\<close> a
  string loses its underscores.
\<close>

fun stripUnderscores :: "jsval \<Rightarrow> jsval" where
  "stripUnderscores (JStr s) = JStr (replaceAll (CHR ''_'') [] s)"
| "stripUnderscores v = v"

definition copyField ::
  "jsval \<Rightarrow> (string \<times> jsval) list \<Rightarrow> string \<times> string \<Rightarrow> (string \<times> jsval) list" where
  "copyField source cleanedEvent entry =
     (let originalKey = fst entry; newKey = snd entry in
      if \<not> nullish (getProp source originalKey) then
        (let v = getProp source originalKey;
             v' = (if newKey = ''year'' \<and> typeof v = ''string'' then stripUnderscores v else v)
         in setProp cleanedEvent newKey v')
      else cleanedEvent)"

definition renameKeys :: "jsval \<Rightarrow> (string \<times> jsval) list" where
  "renameKeys source = foldl (copyField source) [] KEY_MAP"

text \<open>
  Step 2, for one of the two timestamps: a truthy source value is turned into a date
  and written as ISO text; \<^verbatim>\<open>toISOString\<close> raises on an invalid date.
\<close>

definition convertTimestamp ::
  "(string \<Rightarrow> int option) \<Rightarrow> jsval \<Rightarrow> string \<Rightarrow> string \<Rightarrow> (string \<times> jsval) list
     \<Rightarrow> error + (string \<times> jsval) list" where
  "convertTimestamp parse source rawKey newKey cleanedEvent =
     (if truthy (getProp source rawKey) then
        (case toISOString (Date_new parse (getProp source rawKey)) of
           Inl e \<Rightarrow> Inl e
         | Inr isoString \<Rightarrow> Inr (setProp cleanedEvent newKey (JStr isoString)))
      else Inr cleanedEvent)"

text \<open>Step 3, for one of the three lists: an array is replaced by its length.\<close>

definition countList ::
  "jsval \<Rightarrow> string \<Rightarrow> string \<Rightarrow> (string \<times> jsval) list \<Rightarrow> (string \<times> jsval) list" where
  "countList source rawKey newKey cleanedEvent =
     (if isArray (getProp source rawKey)
      then setProp cleanedEvent newKey (JNum (int (length (elems (getProp source rawKey)))))
      else cleanedEvent)"

text \<open>
  The callback of \<^verbatim>\<open>rawData.docs.map\<close>: \<^verbatim>\<open>null\<close> for a document that is falsy or
  has no truthy \<^verbatim>\<open>_source\<close>, the cleaned event otherwise.
\<close>

definition cleanDoc :: "(string \<Rightarrow> int option) \<Rightarrow> jsval \<Rightarrow> error + jsval" where
  "cleanDoc parse doc =
     (if \<not> truthy doc \<or> \<not> truthy (getProp doc ''_source'') then Inr JNull
      else
        (let source = getProp doc ''_source'' in
         case convertTimestamp parse source ''strat_date_and_time_date'' ''start_time_utc''
                (renameKeys source) of
           Inl e \<Rightarrow> Inl e
         | Inr ev1 \<Rightarrow>
             (case convertTimestamp parse source ''end_date_and_time_date'' ''end_time_utc'' ev1 of
                Inl e \<Rightarrow> Inl e
              | Inr ev2 \<Rightarrow>
                  Inr (JObj
                    (countList source ''attended_no_list_custom_student_info''
                       ''attendance_no_count''
                      (countList source ''attended_yes_list_custom_student_info''
                         ''attendance_yes_count''
                        (countList source ''teachers_list_user'' ''teacher_count'' ev2)))))))"

text \<open>Step 4, the predicate of the final \<^verbatim>\<open>filter\<close>.\<close>

definition keepEvent :: "jsval \<Rightarrow> bool" where
  "keepEvent event =
     (truthy event \<and> getProp event ''status'' \<noteq> JStr ''Archived''
        \<and> truthy (getProp event ''title''))"

text \<open>
  The whole function. Its result is \<open>Inr\<close> of the returned object, or \<open>Inl\<close> of the
  fault that ended the call. The diagnostic it writes on an input of the wrong shape
  is \<open>cleanJsonForLLM_diagnostic\<close>.
\<close>

definition invalidInput :: "jsval \<Rightarrow> bool" where
  "invalidInput rawData = (\<not> truthy rawData \<or> \<not> isArray (getProp rawData ''docs''))"

definition cleanJsonForLLM :: "(string \<Rightarrow> int option) \<Rightarrow> jsval \<Rightarrow> error + jsval" where
  "cleanJsonForLLM parse rawData =
     (if invalidInput rawData then Inr (JObj [(''events'', JArr [])])
      else
        (case mapE (cleanDoc parse) (elems (getProp rawData ''docs'')) of
           Inl e \<Rightarrow> Inl e
         | Inr cleanedEvents \<Rightarrow> Inr (JObj [(''events'', JArr (filter keepEvent cleanedEvents))])))"

definition cleanJsonForLLM_diagnostic :: "jsval \<Rightarrow> string list" where
  "cleanJsonForLLM_diagnostic rawData =
     (if invalidInput rawData
      then [''Invalid input data structure. Expected an object with a 'docs' array.'']
      else [])"

text \<open>A batch with the given documents, and the events of a returned object.\<close>

definition batch :: "jsval list \<Rightarrow> jsval" where
  "batch docs = JObj [(''docs'', JArr docs)]"

definition document :: "(string \<times> jsval) list \<Rightarrow> jsval" where
  "document fields = JObj [(''_source'', JObj fields)]"

definition eventsOf :: "jsval \<Rightarrow> jsval list" where
  "eventsOf out = elems (getProp out ''events'')"

section \<open>The exporter's cell escaping\<close>

text \<open>
  \<^verbatim>\<open>escapeCsvCell\<close>: \<^verbatim>\<open>String(cell ?? '')\<close>, then the test \<^verbatim>\<open>/[",\n]/\<close> and the
  quoting with \<^verbatim>\<open>replace(/"/g, '""')\<close>.
\<close>

definition escapeCsvCell :: "jsval \<Rightarrow> string" where
  "escapeCsvCell cell =
     (let strCell = toString (if nullish cell then JStr [] else cell) in
      if testClass [CHR 0x22, CHR '','', CHR 0x0A] strCell
      then [CHR 0x22] @ replaceAll (CHR 0x22) [CHR 0x22, CHR 0x22] strCell @ [CHR 0x22]
      else strCell)"

section \<open>The exporter: \<^verbatim>\<open>downloadJsonAsCsv\<close>\<close>

text \<open>
  \<^verbatim>\<open>formatDateForExcel\<close>: the empty text unless the argument is a non-empty string;
  the string itself when it is no valid date or a date before 1980; the UTC calendar
  fields otherwise, the year as \<^verbatim>\<open>String(year)\<close> and the others through \<^verbatim>\<open>pad\<close>.
\<close>

definition pad :: "int \<Rightarrow> string" where
  "pad num = padStart 2 (CHR ''0'') (Number_toString num)"

definition excelText :: "int \<Rightarrow> string" where
  "excelText t =
     Number_toString (YearFromTime t) @ ''-'' @ pad (int (MonthFromTime t) + 1) @ ''-'' @
     pad (DateFromTime t) @ '' '' @ pad (HourFromTime t) @ '':'' @ pad (MinFromTime t) @
     '':'' @ pad (SecFromTime t)"

definition formatDateForExcel :: "(string \<Rightarrow> int option) \<Rightarrow> jsval \<Rightarrow> string" where
  "formatDateForExcel parse dateString =
     (if \<not> truthy dateString \<or> typeof dateString \<noteq> ''string'' then []
      else
        (case Date_new parse dateString of
           None \<Rightarrow> toString dateString
         | Some t \<Rightarrow>
             if YearFromTime t < 1980 then toString dateString else excelText t))"

text \<open>
  The headers: a \<^verbatim>\<open>Set\<close> keeps its members in insertion order, and adding a member
  again changes nothing.
\<close>

definition addKey :: "string list \<Rightarrow> string \<Rightarrow> string list" where
  "addKey acc k = (if k \<in> set acc then acc else acc @ [k])"

definition collectKeys :: "string list \<Rightarrow> jsval \<Rightarrow> string list" where
  "collectKeys acc obj =
     (if truthy obj \<and> typeof obj = ''object'' then foldl addKey acc (Object_keys obj) else acc)"

definition headersOf :: "jsval list \<Rightarrow> string list" where
  "headersOf jsonData = foldl collectKeys [] jsonData"

text \<open>
  One cell, one row and the whole text. \<^verbatim>\<open>row[header]\<close> is evaluated on every
  record, whatever its shape: it raises on \<^verbatim>\<open>null\<close> and \<^verbatim>\<open>undefined\<close>, and it
  finds inherited properties as well as own ones.
\<close>

definition formatCell :: "(string \<Rightarrow> int option) \<Rightarrow> string \<Rightarrow> jsval \<Rightarrow> string" where
  "formatCell parse header v =
     (if header = ''start_time_utc'' \<or> header = ''end_time_utc''
      then escapeCsvCell (JStr (formatDateForExcel parse v))
      else escapeCsvCell v)"

definition csvCell ::
  "(jsval \<Rightarrow> string \<Rightarrow> jsval option) \<Rightarrow> (string \<Rightarrow> int option) \<Rightarrow> jsval \<Rightarrow> string
     \<Rightarrow> error + string" where
  "csvCell host parse row header =
     (case readProp host row header of
        Inl e \<Rightarrow> Inl e
      | Inr v \<Rightarrow> Inr (formatCell parse header v))"

definition dataRow ::
  "(jsval \<Rightarrow> string \<Rightarrow> jsval option) \<Rightarrow> (string \<Rightarrow> int option) \<Rightarrow> string list \<Rightarrow> jsval
     \<Rightarrow> error + string" where
  "dataRow host parse headers row =
     (case mapE (csvCell host parse row) headers of
        Inl e \<Rightarrow> Inl e
      | Inr cells \<Rightarrow> Inr (join '','' cells))"

text \<open>The byte-order mark \<^verbatim>\<open>U+FEFF\<close>, as its three bytes in UTF-8.\<close>

definition BOM :: string where
  "BOM = [CHR 0xEF, CHR 0xBB, CHR 0xBF]"

definition csvString ::
  "(jsval \<Rightarrow> string \<Rightarrow> jsval option) \<Rightarrow> (string \<Rightarrow> int option) \<Rightarrow> jsval list
     \<Rightarrow> error + string" where
  "csvString host parse jsonData =
     (let headers = headersOf jsonData; headerRow = join '','' headers in
      case mapE (dataRow host parse headers) jsonData of
        Inl e \<Rightarrow> Inl e
      | Inr dataRows \<Rightarrow> Inr (BOM @ join [CHR 0x0A] (headerRow # dataRows)))"

text \<open>
  What the function can change: the lines written to the console and the files the
  browser has saved (name and content). Whether the browser's links have the
  \<^verbatim>\<open>download\<close> attribute is part of the environment.
\<close>

record world =
  console :: "string list"
  saved :: "(string \<times> string) list"
  downloadAttribute :: bool

definition emptyInput :: "jsval \<Rightarrow> bool" where
  "emptyInput jsonData =
     (\<not> truthy jsonData \<or> \<not> isArray jsonData \<or> length (elems jsonData) = 0)"

text \<open>
  The function itself; \<open>filename\<close> is \<open>None\<close> when the caller leaves it out. A
  fault leaves the world as it was, since nothing is written before the text is
  complete.
\<close>

definition downloadJsonAsCsv ::
  "(jsval \<Rightarrow> string \<Rightarrow> jsval option) \<Rightarrow> (string \<Rightarrow> int option) \<Rightarrow> jsval \<Rightarrow> string option
     \<Rightarrow> world \<Rightarrow> error + world" where
  "downloadJsonAsCsv host parse jsonData filename w =
     (if emptyInput jsonData then
        Inr (w\<lparr>console := console w @
          [''Invalid or empty data provided. Please provide an array of objects.'']\<rparr>)
      else
        (case csvString host parse (elems jsonData) of
           Inl e \<Rightarrow> Inl e
         | Inr csv \<Rightarrow>
             if downloadAttribute w
             then Inr (w\<lparr>saved := saved w @
                    [(case filename of None \<Rightarrow> ''data.csv'' | Some name \<Rightarrow> name, csv)]\<rparr>)
             else Inr w))"

text \<open>
  A host used to evaluate examples: what a plain object inherits from
  \<^verbatim>\<open>Object.prototype\<close>, the functions with the text that V8 gives them and
  \<^verbatim>\<open>__proto__\<close> as the prototype itself, an object with no enumerable property.
  It says nothing about the other kinds of value.
\<close>

definition objectPrototype :: "jsval \<Rightarrow> string \<Rightarrow> jsval option" where
  "objectPrototype v k =
     (case v of
        JObj kvs \<Rightarrow>
          if k = ''constructor'' then Some (JFun ''function Object() { [native code] }'')
          else if k \<in> set [''hasOwnProperty'', ''isPrototypeOf'', ''propertyIsEnumerable'',
                  ''toLocaleString'', ''toString'', ''valueOf'', ''__defineGetter__'',
                  ''__defineSetter__'', ''__lookupGetter__'', ''__lookupSetter__'']
          then Some (JFun (''function '' @ k @ ''() { [native code] }''))
          else if k = ''__proto__'' then Some (JObj [])
          else None
      | _ \<Rightarrow> None)"

section \<open>Notions of the specification\<close>

text \<open>
  A document whose \<^verbatim>\<open>_source.event_status_text\<close> is the text \<^verbatim>\<open>Archived\<close>.
\<close>

definition isArchived :: "jsval \<Rightarrow> bool" where
  "isArchived doc = (getProp (getProp doc ''_source'') ''event_status_text'' = JStr ''Archived'')"

text \<open>
  The date formatting as the specification words it, for any cell value: the value
  is parsed as a timestamp; the raw value is written when it does not parse or its
  year is before 1980, the calendar fields otherwise.
\<close>

definition specFormatDate :: "(string \<Rightarrow> int option) \<Rightarrow> jsval \<Rightarrow> string" where
  "specFormatDate parse v =
     (case Date_new parse v of
        None \<Rightarrow> toString (if nullish v then JStr [] else v)
      | Some t \<Rightarrow>
          if YearFromTime t < 1980 then toString (if nullish v then JStr [] else v)
          else excelText t)"

text \<open>The keys of a list in the order of their first occurrence, each once.\<close>

definition firstSeen :: "string list \<Rightarrow> string list" where
  "firstSeen ks = rev (remdups (rev ks))"

text \<open>A record that contributes its keys to the header.\<close>

definition mappingShaped :: "jsval \<Rightarrow> bool" where
  "mappingShaped r = (truthy r \<and> typeof r = ''object'')"

text \<open>The value that step 1 stores for an entry of the renaming table.\<close>

definition copied :: "jsval \<Rightarrow> string \<times> string \<Rightarrow> jsval" where
  "copied source entry =
     (if snd entry = ''year'' then stripUnderscores (getProp source (fst entry))
      else getProp source (fst entry))"

section \<open>Text and properties: basic facts\<close>

lemma getProp_simps [simp]:
  "getProp (JObj kvs) k = (case map_of kvs k of None \<Rightarrow> JUndefined | Some v \<Rightarrow> v)"
  "getProp (JArr xs) k =
     (if k = ''length'' then JNum (int (length xs))
      else case arrayIndex k of
             None \<Rightarrow> JUndefined
           | Some i \<Rightarrow> if i < length xs then xs ! i else JUndefined)"
  "getProp (JStr s) k =
     (if k = ''length'' then JNum (int (length s))
      else case arrayIndex k of
             None \<Rightarrow> JUndefined
           | Some i \<Rightarrow> if i < length s then JStr [s ! i] else JUndefined)"
  "getProp JUndefined k = JUndefined" "getProp JNull k = JUndefined"
  "getProp (JBool b) k = JUndefined" "getProp (JNum n) k = JUndefined"
  "getProp (JFun t) k = JUndefined"
  by (simp_all add: getProp_def split: option.splits)

lemma lookupProp_getProp: "host v k = None \<Longrightarrow> lookupProp host v k = getProp v k"
  by (simp add: lookupProp_def getProp_def split: option.splits)

lemma nullish_iff: "nullish v \<longleftrightarrow> v = JUndefined \<or> v = JNull"
  by (cases v) simp_all

lemma testClass_iff: "testClass cs s \<longleftrightarrow> set s \<inter> set cs \<noteq> {}"
  by (induction s) auto


lemma replaceAll_empty: "replaceAll c [] s = filter (\<lambda>x. x \<noteq> c) s"
  by (induction s) simp_all

section \<open>Cell escaping\<close>



section \<open>The Normalizer: building one event\<close>

lemma map_of_setProp: "map_of (setProp kvs k v) k' = (if k' = k then Some v else map_of kvs k')"
  by (induction kvs) auto

lemma keys_setProp: "fst ` set (setProp kvs k v) = insert k (fst ` set kvs)"
  by (induction kvs) force+

lemma keys_setProp_mem: "(a, b) \<in> set (setProp kvs k v) \<Longrightarrow> a = k \<or> a \<in> fst ` set kvs"
  using keys_setProp [of kvs k v] by (metis fst_conv imageI insertE)

lemma getProp_setProp:
  "getProp (JObj (setProp kvs k v)) k' = (if k' = k then v else getProp (JObj kvs) k')"
  by (simp add: map_of_setProp)

lemma stripUnderscores_typeof: "typeof v \<noteq> ''string'' \<Longrightarrow> stripUnderscores v = v"
  by (cases v) simp_all

lemma copyField_eq:
  "copyField source ev entry =
     (if nullish (getProp source (fst entry)) then ev
      else setProp ev (snd entry) (copied source entry))"
  by (auto simp: copyField_def copied_def Let_def stripUnderscores_typeof)

lemma keys_copyField:
  "fst ` set (copyField source ev entry) \<subseteq> insert (snd entry) (fst ` set ev)"
  by (simp add: copyField_eq keys_setProp) blast

lemma keys_foldl_copyField:
  "fst ` set (foldl (copyField source) ev tbl) \<subseteq> snd ` set tbl \<union> fst ` set ev"
proof (induction tbl arbitrary: ev)
  case Nil
  show ?case by simp
next
  case (Cons entry tbl)
  have "fst ` set (foldl (copyField source) (copyField source ev entry) tbl)
          \<subseteq> snd ` set tbl \<union> fst ` set (copyField source ev entry)"
    by (rule Cons.IH)
  with keys_copyField [of source ev entry] show ?case by (simp del: image_set) blast
qed

lemma keys_renameKeys: "fst ` set (renameKeys source) \<subseteq> snd ` set KEY_MAP"
  using keys_foldl_copyField [of source "[]" KEY_MAP] by (simp add: renameKeys_def)

lemma map_of_foldl_copyField:
  "distinct (map snd tbl) \<Longrightarrow>
   map_of (foldl (copyField source) ev tbl) k =
     (case find (\<lambda>e. snd e = k \<and> \<not> nullish (getProp source (fst e))) tbl of
        None \<Rightarrow> map_of ev k
      | Some e \<Rightarrow> Some (copied source e))"
proof (induction tbl arbitrary: ev)
  case Nil
  show ?case by simp
next
  case (Cons entry tbl)
  then have d: "distinct (map snd tbl)" and n: "snd entry \<notin> snd ` set tbl" by auto
  have none: "find (\<lambda>e. snd e = snd entry \<and> \<not> nullish (getProp source (fst e))) tbl = None"
    unfolding find_None_iff using n by (metis imageI)
  show ?case
    using Cons.IH [OF d, of "copyField source ev entry"] none
    by (auto simp: copyField_eq map_of_setProp split: option.splits)
qed

lemma distinct_KEY_MAP: "distinct (map snd KEY_MAP)"
  by (simp add: KEY_MAP_def)

lemma map_of_renameKeys:
  "map_of (renameKeys source) k =
     (case find (\<lambda>e. snd e = k \<and> \<not> nullish (getProp source (fst e))) KEY_MAP of
        None \<Rightarrow> None
      | Some e \<Rightarrow> Some (copied source e))"
  unfolding renameKeys_def
  by (simp add: map_of_foldl_copyField [OF distinct_KEY_MAP] split: option.splits)

lemma renameKeys_year:
  "map_of (renameKeys source) ''year'' =
     (if nullish (getProp source ''year_option_year'') then None
      else Some (stripUnderscores (getProp source ''year_option_year'')))"
  by (simp add: map_of_renameKeys KEY_MAP_def copied_def)

lemma renameKeys_status:
  "map_of (renameKeys source) ''status'' =
     (if nullish (getProp source ''event_status_text'') then None
      else Some (getProp source ''event_status_text''))"
  by (simp add: map_of_renameKeys KEY_MAP_def copied_def)

lemma renameKeys_title:
  "map_of (renameKeys source) ''title'' =
     (if nullish (getProp source ''event_title_text'') then None
      else Some (getProp source ''event_title_text''))"
  by (simp add: map_of_renameKeys KEY_MAP_def copied_def)

text \<open>The steps after the renaming leave the renamed keys as they are.\<close>

lemma convertTimestamp_map_of:
  "convertTimestamp parse source rawKey newKey ev = Inr ev' \<Longrightarrow> k \<noteq> newKey \<Longrightarrow>
   map_of ev' k = map_of ev k"
  by (auto simp: convertTimestamp_def map_of_setProp split: if_splits sum.splits)

lemma convertTimestamp_keys:
  "convertTimestamp parse source rawKey newKey ev = Inr ev' \<Longrightarrow>
   fst ` set ev' \<subseteq> insert newKey (fst ` set ev)"
  by (auto simp: convertTimestamp_def split: if_splits sum.splits dest: keys_setProp_mem)

lemma convertTimestamp_error:
  "convertTimestamp parse source rawKey newKey ev = Inl e \<Longrightarrow> e = RangeError"
  by (auto simp: convertTimestamp_def toISOString_def split: if_splits sum.splits option.splits)

lemma countList_map_of: "k \<noteq> newKey \<Longrightarrow> map_of (countList source rawKey newKey ev) k = map_of ev k"
  by (simp add: countList_def map_of_setProp)

lemma countList_keys: "fst ` set (countList source rawKey newKey ev) \<subseteq> insert newKey (fst ` set ev)"
  by (auto simp: countList_def dest: keys_setProp_mem)

lemma derived_not_renamed:
  "''start_time_utc'' \<notin> snd ` set KEY_MAP" "''end_time_utc'' \<notin> snd ` set KEY_MAP"
  "''teacher_count'' \<notin> snd ` set KEY_MAP" "''attendance_yes_count'' \<notin> snd ` set KEY_MAP"
  "''attendance_no_count'' \<notin> snd ` set KEY_MAP"
  by (simp_all add: KEY_MAP_def)

lemma subset_chain:
  "A0 \<subseteq> K \<Longrightarrow> A1 \<subseteq> insert a A0 \<Longrightarrow> A2 \<subseteq> insert b A1 \<Longrightarrow> A3 \<subseteq> insert c A2 \<Longrightarrow>
   A4 \<subseteq> insert d A3 \<Longrightarrow> A5 \<subseteq> insert e A4 \<Longrightarrow> A5 \<subseteq> K \<union> {a, b, c, d, e}"
  by blast

lemma cleanDoc_skip:
  "\<not> truthy doc \<or> \<not> truthy (getProp doc ''_source'') \<Longrightarrow> cleanDoc parse doc = Inr JNull"
  by (simp add: cleanDoc_def)

lemma cleanDoc_steps:
  assumes t: "truthy doc" "truthy (getProp doc ''_source'')"
    and r: "cleanDoc parse doc = Inr ev"
  obtains ev1 ev2 where
    "convertTimestamp parse (getProp doc ''_source'') ''strat_date_and_time_date''
       ''start_time_utc'' (renameKeys (getProp doc ''_source'')) = Inr ev1"
    "convertTimestamp parse (getProp doc ''_source'') ''end_date_and_time_date''
       ''end_time_utc'' ev1 = Inr ev2"
    "ev = JObj (countList (getProp doc ''_source'') ''attended_no_list_custom_student_info''
                  ''attendance_no_count''
                 (countList (getProp doc ''_source'') ''attended_yes_list_custom_student_info''
                    ''attendance_yes_count''
                   (countList (getProp doc ''_source'') ''teachers_list_user''
                      ''teacher_count'' ev2)))"
proof -
  define source where "source = getProp doc ''_source''"
  define r1 where "r1 = convertTimestamp parse source ''strat_date_and_time_date''
       ''start_time_utc'' (renameKeys source)"
  have c: "cleanDoc parse doc =
     (case r1 of
           Inl e \<Rightarrow> Inl e
         | Inr ev1 \<Rightarrow>
             (case convertTimestamp parse source ''end_date_and_time_date'' ''end_time_utc'' ev1 of
                Inl e \<Rightarrow> Inl e
              | Inr ev2 \<Rightarrow>
                  Inr (JObj
                    (countList source ''attended_no_list_custom_student_info''
                       ''attendance_no_count''
                      (countList source ''attended_yes_list_custom_student_info''
                         ''attendance_yes_count''
                        (countList source ''teachers_list_user'' ''teacher_count'' ev2))))))"
    unfolding cleanDoc_def source_def r1_def Let_def using t by simp
  from r c obtain ev1 where e1: "r1 = Inr ev1" by (cases r1) simp_all
  define r2 where "r2 = convertTimestamp parse source ''end_date_and_time_date'' ''end_time_utc'' ev1"
  from r c e1 obtain ev2 where e2: "r2 = Inr ev2" unfolding r2_def by (cases r2) (simp_all add: r2_def)
  from r c e1 e2 have "ev = JObj
                    (countList source ''attended_no_list_custom_student_info''
                       ''attendance_no_count''
                      (countList source ''attended_yes_list_custom_student_info''
                         ''attendance_yes_count''
                        (countList source ''teachers_list_user'' ''teacher_count'' ev2)))"
    by (simp add: r2_def)
  with e1 e2 that show thesis unfolding r1_def r2_def source_def by blast
qed

lemma cleanDoc_object:
  assumes t: "truthy doc" "truthy (getProp doc ''_source'')"
    and r: "cleanDoc parse doc = Inr ev"
  obtains kvs where "ev = JObj kvs"
    "fst ` set kvs \<subseteq> snd ` set KEY_MAP \<union>
       {''start_time_utc'', ''end_time_utc'', ''teacher_count'',
        ''attendance_yes_count'', ''attendance_no_count''}"
    "\<And>k. k \<in> snd ` set KEY_MAP \<Longrightarrow>
       map_of kvs k = map_of (renameKeys (getProp doc ''_source'')) k"
proof -
  define source where "source = getProp doc ''_source''"
  from cleanDoc_steps [OF t r] obtain ev1 ev2 where
    s1: "convertTimestamp parse source ''strat_date_and_time_date'' ''start_time_utc''
           (renameKeys source) = Inr ev1" and
    s2: "convertTimestamp parse source ''end_date_and_time_date'' ''end_time_utc'' ev1 = Inr ev2" and
    ev: "ev = JObj (countList source ''attended_no_list_custom_student_info''
                       ''attendance_no_count''
                      (countList source ''attended_yes_list_custom_student_info''
                         ''attendance_yes_count''
                        (countList source ''teachers_list_user'' ''teacher_count'' ev2)))"
    unfolding source_def by blast
  define c1 where "c1 = countList source ''teachers_list_user'' ''teacher_count'' ev2"
  define c2 where "c2 = countList source ''attended_yes_list_custom_student_info''
                         ''attendance_yes_count'' c1"
  define c3 where "c3 = countList source ''attended_no_list_custom_student_info''
                       ''attendance_no_count'' c2"
  have keys: "fst ` set c3 \<subseteq> snd ` set KEY_MAP \<union>
               {''start_time_utc'', ''end_time_utc'', ''teacher_count'',
                ''attendance_yes_count'', ''attendance_no_count''}"
    by (rule subset_chain [OF keys_renameKeys [of source] convertTimestamp_keys [OF s1]
          convertTimestamp_keys [OF s2], of "fst ` set c1" _ "fst ` set c2"])
       (simp_all only: c1_def c2_def c3_def countList_keys)
  have vals: "map_of c3 k = map_of (renameKeys source) k" if "k \<in> snd ` set KEY_MAP" for k
  proof -
    from that derived_not_renamed
    have ne: "k \<noteq> ''start_time_utc''" "k \<noteq> ''end_time_utc''" "k \<noteq> ''teacher_count''"
      "k \<noteq> ''attendance_yes_count''" "k \<noteq> ''attendance_no_count''"
      by blast+
    have "map_of c3 k = map_of ev2 k"
      unfolding c3_def c2_def c1_def by (simp add: countList_map_of ne)
    also have "\<dots> = map_of ev1 k" by (rule convertTimestamp_map_of [OF s2 ne(2)])
    also have "\<dots> = map_of (renameKeys source) k" by (rule convertTimestamp_map_of [OF s1 ne(1)])
    finally show ?thesis .
  qed
  from ev have "ev = JObj c3" unfolding c3_def c2_def c1_def .
  with keys vals that show thesis unfolding source_def by blast
qed

section \<open>The Normalizer: the whole batch\<close>

lemma mapE_append:
  "mapE f (xs @ ys) =
     (case mapE f xs of
        Inl e \<Rightarrow> Inl e
      | Inr as \<Rightarrow> (case mapE f ys of Inl e \<Rightarrow> Inl e | Inr bs \<Rightarrow> Inr (as @ bs)))"
  by (induction xs) (auto split: sum.splits)

lemma mapE_Inr_set:
  "mapE f xs = Inr ys \<Longrightarrow> y \<in> set ys \<Longrightarrow> \<exists>x \<in> set xs. f x = Inr y"
  by (induction xs arbitrary: ys) (auto split: sum.splits)

lemma mapE_Inl_set: "mapE f xs = Inl e \<Longrightarrow> \<exists>x \<in> set xs. f x = Inl e"
  by (induction xs) (auto split: sum.splits)

lemma mapE_raises: "x \<in> set xs \<Longrightarrow> f x = Inl e \<Longrightarrow> \<exists>e'. mapE f xs = Inl e'"
  by (induction xs) (auto split: sum.splits)

lemma mapE_filter:
  assumes "mapE f xs = Inr ys"
    and "\<And>x y. x \<in> set xs \<Longrightarrow> \<not> P x \<Longrightarrow> f x = Inr y \<Longrightarrow> \<not> K y"
  shows "\<exists>ys'. mapE f (filter P xs) = Inr ys' \<and> filter K ys' = filter K ys"
  using assms
proof (induction xs arbitrary: ys)
  case Nil
  then show ?case by simp
next
  case (Cons x xs)
  from Cons.prems(1) obtain y zs where y: "f x = Inr y" and zs: "mapE f xs = Inr zs"
    and ys: "ys = y # zs"
    by (auto split: sum.splits)
  from Cons.IH [OF zs] Cons.prems(2) obtain zs' where
    zs': "mapE f (filter P xs) = Inr zs'" "filter K zs' = filter K zs"
    by auto
  show ?case
  proof (cases "P x")
    case True
    with y zs' ys show ?thesis by simp
  next
    case False
    with Cons.prems(2) [of x y] y have "\<not> K y" by simp
    with False zs' ys show ?thesis by simp
  qed
qed

lemma cleanDoc_error: "cleanDoc parse doc = Inl e \<Longrightarrow> e = RangeError"
  by (auto simp: cleanDoc_def Let_def split: if_splits sum.splits dest: convertTimestamp_error)

lemma keepEvent_JNull: "\<not> keepEvent JNull"
  by (simp add: keepEvent_def)

text \<open>The two shapes of a call: an input of the wrong shape, and a batch.\<close>

lemma cleanJsonForLLM_docs:
  "truthy rawData \<Longrightarrow> getProp rawData ''docs'' = JArr docs \<Longrightarrow>
   cleanJsonForLLM parse rawData =
     (case mapE (cleanDoc parse) docs of
        Inl e \<Rightarrow> Inl e
      | Inr evs \<Rightarrow> Inr (JObj [(''events'', JArr (filter keepEvent evs))]))"
  by (simp add: cleanJsonForLLM_def invalidInput_def)

lemma cleanJsonForLLM_batch:
  "cleanJsonForLLM parse (batch docs) =
     (case mapE (cleanDoc parse) docs of
        Inl e \<Rightarrow> Inl e
      | Inr evs \<Rightarrow> Inr (JObj [(''events'', JArr (filter keepEvent evs))]))"
  by (rule cleanJsonForLLM_docs) (simp_all add: batch_def)

lemma cleanJsonForLLM_events:
  assumes "cleanJsonForLLM parse rawData = Inr out" and "e \<in> set (eventsOf out)"
  shows "keepEvent e \<and> (\<exists>doc. cleanDoc parse doc = Inr e)"
proof (cases "invalidInput rawData")
  case True
  with assms show ?thesis by (auto simp: cleanJsonForLLM_def eventsOf_def)
next
  case False
  with assms(1) obtain evs where m: "mapE (cleanDoc parse) (elems (getProp rawData ''docs'')) = Inr evs"
    and out: "out = JObj [(''events'', JArr (filter keepEvent evs))]"
    by (auto simp: cleanJsonForLLM_def split: sum.splits)
  from out assms(2) have e: "e \<in> set evs" "keepEvent e" by (simp_all add: eventsOf_def)
  from mapE_Inr_set [OF m e(1)] e(2) show ?thesis by blast
qed

lemma kept_event_object:
  assumes "cleanDoc parse doc = Inr e" and "keepEvent e"
  obtains kvs where "e = JObj kvs"
    "fst ` set kvs \<subseteq> snd ` set KEY_MAP \<union>
       {''start_time_utc'', ''end_time_utc'', ''teacher_count'',
        ''attendance_yes_count'', ''attendance_no_count''}"
proof (cases "truthy doc \<and> truthy (getProp doc ''_source'')")
  case True
  with cleanDoc_object [OF _ _ assms(1)] that show thesis by blast
next
  case False
  with assms(1) have "e = JNull" by (auto simp: cleanDoc_def)
  with assms(2) show thesis by (simp add: keepEvent_def)
qed

lemma canonical_keys:
  "snd ` set KEY_MAP \<union>
       {''start_time_utc'', ''end_time_utc'', ''teacher_count'',
        ''attendance_yes_count'', ''attendance_no_count''} \<subseteq>
     {''title'', ''details'', ''status'', ''location'', ''academic_year'', ''year'',
              ''module'', ''speciality'', ''cpp_speciality'', ''student_count'',
              ''duration_hours'', ''is_online'', ''is_cpp'', ''is_cancelled'', ''site'',
              ''start_time_utc'', ''end_time_utc'', ''teacher_count'',
              ''attendance_yes_count'', ''attendance_no_count''}"
  by (simp add: KEY_MAP_def)

text \<open>Names of the raw fields are not array indices.\<close>

lemma arrayIndex_letter: "digitVal c = None \<Longrightarrow> arrayIndex (c # cs) = None"
  by (simp add: arrayIndex_def)

lemma getProp_JObj_only:
  assumes "getProp v k = JStr s" and "k \<noteq> ''length''" and "arrayIndex k = None"
  shows "\<exists>kvs. v = JObj kvs"
  using assms by (cases v) auto

lemma raw_field_names:
  "k \<in> {''_source'', ''event_status_text'', ''year_option_year''} \<Longrightarrow>
   k \<noteq> ''length'' \<and> arrayIndex k = None"
  by (auto simp: arrayIndex_letter digitVal_def)

lemma field_of_source:
  assumes "getProp (getProp doc ''_source'') k = JStr s"
    and "k \<in> {''event_status_text'', ''year_option_year''}"
  shows "truthy doc \<and> truthy (getProp doc ''_source'')"
proof -
  from assms raw_field_names [of k] obtain kvs where src: "getProp doc ''_source'' = JObj kvs"
    using getProp_JObj_only [of "getProp doc ''_source''" k s] by blast
  have "\<exists>kvs'. doc = JObj kvs'"
  proof (cases doc)
    case (JArr xs)
    with src raw_field_names [of "''_source''"] show ?thesis by simp
  next
    case (JStr t)
    with src raw_field_names [of "''_source''"] show ?thesis by simp
  qed (use src in simp_all)
  with src show ?thesis by auto
qed

lemma archived_not_kept:
  assumes a: "isArchived doc" and r: "cleanDoc parse doc = Inr e"
  shows "\<not> keepEvent e"
proof -
  from a have s: "getProp (getProp doc ''_source'') ''event_status_text'' = JStr ''Archived''"
    by (simp add: isArchived_def)
  from field_of_source [OF s] have t: "truthy doc" "truthy (getProp doc ''_source'')" by simp_all
  from cleanDoc_object [OF t r] obtain kvs where e: "e = JObj kvs" and
    v: "\<And>k. k \<in> snd ` set KEY_MAP \<Longrightarrow>
       map_of kvs k = map_of (renameKeys (getProp doc ''_source'')) k" by blast
  have "''status'' \<in> snd ` set KEY_MAP" by (simp add: KEY_MAP_def)
  from v [OF this] s have "map_of kvs ''status'' = Some (JStr ''Archived'')"
    by (simp add: renameKeys_status)
  with e show ?thesis by (simp add: keepEvent_def)
qed

lemma no_object_field:
  "\<forall>kvs. src \<noteq> JObj kvs \<Longrightarrow> k \<noteq> ''length'' \<Longrightarrow> arrayIndex k = None \<Longrightarrow>
   getProp src k = JUndefined"
  by (cases src) auto

lemma KEY_MAP_names: "e \<in> set KEY_MAP \<Longrightarrow> fst e \<noteq> ''length'' \<and> arrayIndex (fst e) = None"
  by (auto simp: KEY_MAP_def arrayIndex_letter digitVal_def)

lemma derived_names:
  "k \<in> {''strat_date_and_time_date'', ''end_date_and_time_date'', ''teachers_list_user'',
         ''attended_yes_list_custom_student_info'', ''attended_no_list_custom_student_info''} \<Longrightarrow>
   k \<noteq> ''length'' \<and> arrayIndex k = None"
  by (auto simp: arrayIndex_letter digitVal_def)

lemma foldl_copyField_none:
  "\<forall>e \<in> set tbl. nullish (getProp src (fst e)) \<Longrightarrow> foldl (copyField src) ev tbl = ev"
  by (induction tbl arbitrary: ev) (simp_all add: copyField_eq)

lemma renameKeys_no_object:
  assumes "\<forall>kvs. src \<noteq> JObj kvs"
  shows "renameKeys src = []"
  unfolding renameKeys_def
proof (rule foldl_copyField_none, rule ballI)
  fix e assume "e \<in> set KEY_MAP"
  from KEY_MAP_names [OF this] no_object_field [OF assms, of "fst e"]
  show "nullish (getProp src (fst e))" by simp
qed

lemma cleanDoc_no_object:
  assumes "\<forall>kvs. getProp d ''_source'' \<noteq> JObj kvs"
  shows "cleanDoc parse d = Inr JNull \<or> cleanDoc parse d = Inr (JObj [])"
proof -
  define src where "src = getProp d ''_source''"
  have u: "getProp src k = JUndefined"
    if "k \<in> {''strat_date_and_time_date'', ''end_date_and_time_date'', ''teachers_list_user'',
         ''attended_yes_list_custom_student_info'', ''attended_no_list_custom_student_info''}" for k
    using derived_names [OF that] no_object_field [of src k] assms by (simp add: src_def)
  have r: "renameKeys src = []" using assms by (simp add: renameKeys_no_object src_def)
  have t: "convertTimestamp parse src ''strat_date_and_time_date'' ''start_time_utc'' [] = Inr []"
    "convertTimestamp parse src ''end_date_and_time_date'' ''end_time_utc'' [] = Inr []"
    by (simp_all add: convertTimestamp_def u)
  have c: "countList src ''teachers_list_user'' ''teacher_count'' [] = []"
    "countList src ''attended_yes_list_custom_student_info'' ''attendance_yes_count'' [] = []"
    "countList src ''attended_no_list_custom_student_info'' ''attendance_no_count'' [] = []"
    by (simp_all add: countList_def u)
  show ?thesis
    unfolding cleanDoc_def Let_def src_def [symmetric] by (simp add: r t c)
qed

lemma skipped_doc:
  assumes "\<not> truthy d \<or> (\<forall>kvs. getProp d ''_source'' \<noteq> JObj kvs)"
  shows "\<exists>e. cleanDoc parse d = Inr e \<and> \<not> keepEvent e"
proof (cases "truthy d")
  case False
  then show ?thesis by (simp add: cleanDoc_skip keepEvent_def)
next
  case True
  with assms cleanDoc_no_object [of d parse] show ?thesis
    by (auto simp: keepEvent_def)
qed


text \<open>Two batches used as examples, evaluated.\<close>

lemma example_batch:
  "cleanJsonForLLM Date_parse_iso
     (batch [JNull, JObj [], JNum 5,
       document [(''event_title_text'', JStr ''T''),
                 (''strat_date_and_time_date'', JNum 1705312800000),
                 (''teachers_list_user'', JArr [JNum 1, JNum 4])],
       document [(''event_title_text'', JStr ''U''), (''event_status_text'', JStr ''Archived'')]])
    = Inr (JObj [(''events'', JArr [JObj [(''title'', JStr ''T''),
             (''start_time_utc'', JStr ''2024-01-15T10:00:00.000Z''),
             (''teacher_count'', JNum 2)]])])"
  by code_simp

lemma example_batch_short:
  "cleanJsonForLLM Date_parse_iso
     (batch [JNull, JObj [], JNum 5,
       document [(''event_title_text'', JStr ''T''),
                 (''strat_date_and_time_date'', JNum 1705312800000),
                 (''teachers_list_user'', JArr [JNum 1, JNum 4])]])
    = Inr (JObj [(''events'', JArr [JObj [(''title'', JStr ''T''),
             (''start_time_utc'', JStr ''2024-01-15T10:00:00.000Z''),
             (''teacher_count'', JNum 2)]])])"
  by code_simp

subsection \<open>Unparseable timestamps\<close>

text \<open>
  C1 says that a present but unparseable timestamp does not end the call. The code
  does the opposite: whenever a document of the batch has a truthy
  \<^verbatim>\<open>strat_date_and_time_date\<close> or \<^verbatim>\<open>end_date_and_time_date\<close> that is no valid date,
  \<^verbatim>\<open>toISOString\<close> raises \<^verbatim>\<open>RangeError\<close> in the callback, and the whole call ends with
  that fault, whatever the other documents are.
\<close>

theorem unparseable_timestamp_raises:
  assumes "truthy rawData" and "getProp rawData ''docs'' = JArr docs" and "d \<in> set docs"
    and "truthy d" and "truthy (getProp d ''_source'')"
    and "k = ''strat_date_and_time_date'' \<or> k = ''end_date_and_time_date''"
    and "truthy (getProp (getProp d ''_source'') k)"
    and "Date_new parse (getProp (getProp d ''_source'') k) = None"
  shows "cleanDoc parse d = Inl RangeError \<and> cleanJsonForLLM parse rawData = Inl RangeError"
proof -
  have "\<exists>e. cleanDoc parse d = Inl e"
    using assms(4-8)
    by (auto simp: cleanDoc_def Let_def convertTimestamp_def toISOString_def split: sum.splits)
  then have d: "cleanDoc parse d = Inl RangeError" using cleanDoc_error by blast
  from mapE_raises [of d docs "cleanDoc parse", OF assms(3) d] obtain e' where e': "mapE (cleanDoc parse) docs = Inl e'"
    by blast
  from mapE_Inl_set [OF e'] cleanDoc_error have "e' = RangeError" by blast
  with e' d show ?thesis by (simp add: cleanJsonForLLM_docs [OF assms(1,2)])
qed

text \<open>
  The batch \<^verbatim>\<open>{docs:[{_source:{event_title_text:"T", strat_date_and_time_date:"bad-date"}}]}\<close>
  raises.
\<close>

theorem unparseable_timestamp_raises_example:
  "cleanJsonForLLM Date_parse_iso
     (batch [document [(''event_title_text'', JStr ''T''),
                       (''strat_date_and_time_date'', JStr ''bad-date'')]])
   = Inl RangeError"
proof -
  let ?d = "document [(''event_title_text'', JStr ''T''),
                      (''strat_date_and_time_date'', JStr ''bad-date'')]"
  have p: "Date_new Date_parse_iso (getProp (getProp ?d ''_source'') ''strat_date_and_time_date'')
             = None"
    by (simp add: document_def Date_parse_iso_def)
  have "cleanDoc Date_parse_iso ?d = Inl RangeError \<and>
        cleanJsonForLLM Date_parse_iso (batch [?d]) = Inl RangeError"
    by (rule unparseable_timestamp_raises [where k = "''strat_date_and_time_date''" and docs = "[?d]"])
       (simp_all add: batch_def p, simp_all add: document_def)
  then show ?thesis by simp
qed

subsection \<open>Archived events\<close>

text \<open>
  C2. Whenever the Normalizer returns, every event of its output is non-null, has a
  status other than \<^verbatim>\<open>Archived\<close> and has a title that is truthy, so not the empty
  text; and the documents whose \<^verbatim>\<open>_source.event_status_text\<close> is \<^verbatim>\<open>Archived\<close>
  contribute nothing: the output is the output for the batch without them.
\<close>

theorem archived_never_in_output:
  assumes "cleanJsonForLLM parse rawData = Inr out"
  shows "(\<forall>e \<in> set (eventsOf out).
            e \<noteq> JNull \<and> getProp e ''status'' \<noteq> JStr ''Archived'' \<and>
            truthy (getProp e ''title'') \<and> getProp e ''title'' \<noteq> JStr [])
       \<and> (\<forall>docs. truthy rawData \<and> getProp rawData ''docs'' = JArr docs \<longrightarrow>
            cleanJsonForLLM parse (batch (filter (\<lambda>d. \<not> isArchived d) docs)) = Inr out)"
proof (rule conjI; intro ballI allI impI)
  fix e assume "e \<in> set (eventsOf out)"
  from cleanJsonForLLM_events [OF assms this] have k: "keepEvent e" by simp
  then have "truthy (getProp e ''title'')" by (simp add: keepEvent_def)
  then have "getProp e ''title'' \<noteq> JStr []" by auto
  with k show "e \<noteq> JNull \<and> getProp e ''status'' \<noteq> JStr ''Archived'' \<and>
            truthy (getProp e ''title'') \<and> getProp e ''title'' \<noteq> JStr []"
    by (auto simp: keepEvent_def)
next
  fix docs assume d: "truthy rawData \<and> getProp rawData ''docs'' = JArr docs"
  with assms obtain evs where m: "mapE (cleanDoc parse) docs = Inr evs"
    and out: "out = JObj [(''events'', JArr (filter keepEvent evs))]"
    by (auto simp: cleanJsonForLLM_docs split: sum.splits)
  from mapE_filter [OF m, of "\<lambda>d. \<not> isArchived d" keepEvent] archived_not_kept
  obtain evs' where "mapE (cleanDoc parse) (filter (\<lambda>d. \<not> isArchived d) docs) = Inr evs'"
    "filter keepEvent evs' = filter keepEvent evs"
    by blast
  with out show "cleanJsonForLLM parse (batch (filter (\<lambda>d. \<not> isArchived d) docs)) = Inr out"
    by (simp add: cleanJsonForLLM_batch)
qed

text \<open>
  In the example batch the last document is archived; the output has the one other
  event and is also the output of the batch without the archived document.
\<close>

theorem archived_never_in_output_example:
  "getProp (JObj [(''title'', JStr ''T''),
             (''start_time_utc'', JStr ''2024-01-15T10:00:00.000Z''),
             (''teacher_count'', JNum 2)]) ''status'' \<noteq> JStr ''Archived''
   \<and> cleanJsonForLLM Date_parse_iso
     (batch [JNull, JObj [], JNum 5,
       document [(''event_title_text'', JStr ''T''),
                 (''strat_date_and_time_date'', JNum 1705312800000),
                 (''teachers_list_user'', JArr [JNum 1, JNum 4])]])
    = Inr (JObj [(''events'', JArr [JObj [(''title'', JStr ''T''),
             (''start_time_utc'', JStr ''2024-01-15T10:00:00.000Z''),
             (''teacher_count'', JNum 2)]])])"
  using archived_never_in_output [OF example_batch]
  by (simp add: eventsOf_def batch_def isArchived_def document_def)

subsection \<open>Documents without a source\<close>

text \<open>
  C3. A document that is absent (falsy) or whose \<^verbatim>\<open>_source\<close> is not an object does
  not raise and yields no event that is kept; wherever it stands in a batch, the call
  behaves exactly as on the batch without it, so the other documents are processed
  and their events returned.
\<close>

theorem missing_source_skipped:
  assumes "\<not> truthy d \<or> (\<forall>kvs. getProp d ''_source'' \<noteq> JObj kvs)"
  shows "(\<exists>e. cleanDoc parse d = Inr e \<and> \<not> keepEvent e) \<and>
         (\<forall>rawData xs ys. truthy rawData \<and> getProp rawData ''docs'' = JArr (xs @ d # ys) \<longrightarrow>
            cleanJsonForLLM parse rawData = cleanJsonForLLM parse (batch (xs @ ys)))"
proof (rule conjI)
  show "\<exists>e. cleanDoc parse d = Inr e \<and> \<not> keepEvent e" by (rule skipped_doc [OF assms])
next
  show "\<forall>rawData xs ys. truthy rawData \<and> getProp rawData ''docs'' = JArr (xs @ d # ys) \<longrightarrow>
            cleanJsonForLLM parse rawData = cleanJsonForLLM parse (batch (xs @ ys))"
  proof (intro allI impI)
  fix rawData xs ys
  assume r: "truthy rawData \<and> getProp rawData ''docs'' = JArr (xs @ d # ys)"
  from skipped_doc [OF assms] obtain e where e: "cleanDoc parse d = Inr e" "\<not> keepEvent e"
    by blast
  have "cleanJsonForLLM parse rawData =
     (case mapE (cleanDoc parse) (xs @ d # ys) of
        Inl e \<Rightarrow> Inl e
      | Inr evs \<Rightarrow> Inr (JObj [(''events'', JArr (filter keepEvent evs))]))"
    using r by (simp add: cleanJsonForLLM_docs)
  also have "\<dots> = cleanJsonForLLM parse (batch (xs @ ys))"
    unfolding cleanJsonForLLM_batch mapE_append using e
    by (simp split: sum.splits)
  finally show "cleanJsonForLLM parse rawData = cleanJsonForLLM parse (batch (xs @ ys))" .
  qed
qed


text \<open>
  A document \<^verbatim>\<open>{}\<close> between two good ones: both of them are in the output.
\<close>

theorem missing_source_skipped_example:
  "cleanDoc Date_parse_iso (JObj []) = Inr JNull
   \<and> cleanJsonForLLM Date_parse_iso
       (batch [document [(''event_title_text'', JStr ''A'')], JObj [],
               document [(''event_title_text'', JStr ''B'')]])
     = Inr (JObj [(''events'', JArr [JObj [(''title'', JStr ''A'')], JObj [(''title'', JStr ''B'')]])])"
proof -
  have h: "\<not> truthy (JObj []) \<or> (\<forall>kvs. getProp (JObj []) ''_source'' \<noteq> JObj kvs)" by simp
  have b: "truthy (batch [document [(''event_title_text'', JStr ''A'')], JObj [],
               document [(''event_title_text'', JStr ''B'')]]) \<and>
           getProp (batch [document [(''event_title_text'', JStr ''A'')], JObj [],
               document [(''event_title_text'', JStr ''B'')]]) ''docs''
             = JArr ([document [(''event_title_text'', JStr ''A'')]] @ JObj [] #
                     [document [(''event_title_text'', JStr ''B'')]])"
    by (simp add: batch_def)
  have r: "cleanJsonForLLM Date_parse_iso
       (batch ([document [(''event_title_text'', JStr ''A'')]] @
               [document [(''event_title_text'', JStr ''B'')]]))
     = Inr (JObj [(''events'', JArr [JObj [(''title'', JStr ''A'')], JObj [(''title'', JStr ''B'')]])])"
    by code_simp
  have c: "cleanDoc Date_parse_iso (JObj []) = Inr JNull" by (simp add: cleanDoc_def)
  from missing_source_skipped [OF h, of Date_parse_iso] b r c show ?thesis by metis
qed

subsection \<open>The year\<close>

lemma year_example:
  "cleanJsonForLLM parse
     (batch [document [(''event_title_text'', JStr ''T''), (''year_option_year'', JStr ''2023_2024'')]])
   = Inr (JObj [(''events'', JArr [JObj [(''title'', JStr ''T''), (''year'', JStr ''20232024'')]])])"
proof -
  define src where "src = JObj [(''event_title_text'', JStr ''T''), (''year_option_year'', JStr ''2023_2024'')]"
  have r: "renameKeys src = [(''title'', JStr ''T''), (''year'', JStr ''20232024'')]"
    by (simp add: renameKeys_def KEY_MAP_def copyField_def src_def)
  have t: "convertTimestamp parse src ''strat_date_and_time_date'' ''start_time_utc'' ev = Inr ev"
    "convertTimestamp parse src ''end_date_and_time_date'' ''end_time_utc'' ev = Inr ev" for ev
    by (simp_all add: convertTimestamp_def src_def)
  have c: "countList src ''teachers_list_user'' ''teacher_count'' ev = ev"
    "countList src ''attended_yes_list_custom_student_info'' ''attendance_yes_count'' ev = ev"
    "countList src ''attended_no_list_custom_student_info'' ''attendance_no_count'' ev = ev" for ev
    by (simp_all add: countList_def src_def)
  have d: "cleanDoc parse (JObj [(''_source'', src)])
             = Inr (JObj [(''title'', JStr ''T''), (''year'', JStr ''20232024'')])"
    by (simp add: cleanDoc_def r t c) (simp add: src_def)
  show ?thesis
    unfolding cleanJsonForLLM_batch document_def src_def [symmetric]
    by (simp add: d keepEvent_def)
qed


text \<open>
  C8. The batch \<^verbatim>\<open>{docs:[{_source:{event_title_text:"T", year_option_year:"2023_2024"}}]}\<close>
  gives exactly \<^verbatim>\<open>{events:[{title:"T", year:"20232024"}]}\<close>; and for every document
  whose \<^verbatim>\<open>_source.year_option_year\<close> is a string, the event built from it has under
  \<^verbatim>\<open>year\<close> that string with every underscore removed.
\<close>

theorem year_underscores_stripped:
  "cleanJsonForLLM parse
     (batch [document [(''event_title_text'', JStr ''T''), (''year_option_year'', JStr ''2023_2024'')]])
   = Inr (JObj [(''events'', JArr [JObj [(''title'', JStr ''T''), (''year'', JStr ''20232024'')]])])
   \<and> (\<forall>doc s ev. getProp (getProp doc ''_source'') ''year_option_year'' = JStr s \<and>
          cleanDoc parse doc = Inr ev \<longrightarrow>
          getProp ev ''year'' = JStr (filter (\<lambda>c. c \<noteq> CHR ''_'') s))"
proof (rule conjI)
  show "\<forall>doc s ev. getProp (getProp doc ''_source'') ''year_option_year'' = JStr s \<and>
          cleanDoc parse doc = Inr ev \<longrightarrow>
          getProp ev ''year'' = JStr (filter (\<lambda>c. c \<noteq> CHR ''_'') s)"
  proof (intro allI impI)
    fix doc s ev
    assume a: "getProp (getProp doc ''_source'') ''year_option_year'' = JStr s \<and>
          cleanDoc parse doc = Inr ev"
    then have s: "getProp (getProp doc ''_source'') ''year_option_year'' = JStr s"
      and r: "cleanDoc parse doc = Inr ev" by simp_all
    from field_of_source [OF s] have t: "truthy doc" "truthy (getProp doc ''_source'')" by simp_all
    from cleanDoc_object [OF t r] obtain kvs where e: "ev = JObj kvs" and
      v: "\<And>k. k \<in> snd ` set KEY_MAP \<Longrightarrow>
         map_of kvs k = map_of (renameKeys (getProp doc ''_source'')) k" by blast
    have "''year'' \<in> snd ` set KEY_MAP" by (simp add: KEY_MAP_def)
    from v [OF this] s have "map_of kvs ''year'' = Some (JStr (filter (\<lambda>c. c \<noteq> CHR ''_'') s))"
      by (simp add: renameKeys_year replaceAll_empty)
    with e show "getProp ev ''year'' = JStr (filter (\<lambda>c. c \<noteq> CHR ''_'') s)" by simp
  qed
qed (rule year_example)


text \<open>A document that has only the year.\<close>

theorem year_underscores_stripped_example:
  "cleanDoc Date_parse_iso (document [(''year_option_year'', JStr ''2023_2024'')])
     = Inr (JObj [(''year'', JStr ''20232024'')])
   \<and> getProp (JObj [(''year'', JStr ''20232024'')]) ''year'' = JStr ''20232024''"
proof -
  have c: "cleanDoc Date_parse_iso (document [(''year_option_year'', JStr ''2023_2024'')])
     = Inr (JObj [(''year'', JStr ''20232024'')])"
    by code_simp
  have g: "getProp (getProp (document [(''year_option_year'', JStr ''2023_2024'')]) ''_source'')
             ''year_option_year'' = JStr ''2023_2024''"
    by (simp add: document_def)
  from year_underscores_stripped [of Date_parse_iso] g c
  have "getProp (JObj [(''year'', JStr ''20232024'')]) ''year''
          = JStr (filter (\<lambda>c. c \<noteq> CHR ''_'') ''2023_2024'')"
    by blast
  with c show ?thesis by simp
qed

subsection \<open>The keys of an event\<close>

text \<open>
  C10. Whenever the Normalizer returns, every event of its output is an object whose
  keys all belong to the twenty canonical names: the fifteen targets of the renaming
  table and \<^verbatim>\<open>start_time_utc\<close>, \<^verbatim>\<open>end_time_utc\<close>, \<^verbatim>\<open>teacher_count\<close>,
  \<^verbatim>\<open>attendance_yes_count\<close>, \<^verbatim>\<open>attendance_no_count\<close>.
\<close>

theorem output_keys_canonical:
  assumes "cleanJsonForLLM parse rawData = Inr out"
  shows "\<forall>e \<in> set (eventsOf out).
           (\<exists>kvs. e = JObj kvs) \<and>
           set (Object_keys e) \<subseteq>
             {''title'', ''details'', ''status'', ''location'', ''academic_year'', ''year'',
              ''module'', ''speciality'', ''cpp_speciality'', ''student_count'',
              ''duration_hours'', ''is_online'', ''is_cpp'', ''is_cancelled'', ''site'',
              ''start_time_utc'', ''end_time_utc'', ''teacher_count'',
              ''attendance_yes_count'', ''attendance_no_count''}"
proof
  fix e assume "e \<in> set (eventsOf out)"
  from cleanJsonForLLM_events [OF assms this] obtain doc where
    "keepEvent e" "cleanDoc parse doc = Inr e" by blast
  from kept_event_object [OF this(2,1)] obtain kvs where e: "e = JObj kvs" and
    k: "fst ` set kvs \<subseteq> snd ` set KEY_MAP \<union>
       {''start_time_utc'', ''end_time_utc'', ''teacher_count'',
        ''attendance_yes_count'', ''attendance_no_count''}" by blast
  have "set (Object_keys e) = fst ` set kvs" by (simp add: e)
  with order_trans [OF k canonical_keys] e show "(\<exists>kvs. e = JObj kvs) \<and>
           set (Object_keys e) \<subseteq>
             {''title'', ''details'', ''status'', ''location'', ''academic_year'', ''year'',
              ''module'', ''speciality'', ''cpp_speciality'', ''student_count'',
              ''duration_hours'', ''is_online'', ''is_cpp'', ''is_cancelled'', ''site'',
              ''start_time_utc'', ''end_time_utc'', ''teacher_count'',
              ''attendance_yes_count'', ''attendance_no_count''}"
    by (simp only: exI [of _ kvs] simp_thms)
qed

text \<open>The event of the example batch has three of the twenty keys.\<close>

theorem output_keys_canonical_example:
  "set (Object_keys (JObj [(''title'', JStr ''T''),
             (''start_time_utc'', JStr ''2024-01-15T10:00:00.000Z''),
             (''teacher_count'', JNum 2)])) \<subseteq>
             {''title'', ''details'', ''status'', ''location'', ''academic_year'', ''year'',
              ''module'', ''speciality'', ''cpp_speciality'', ''student_count'',
              ''duration_hours'', ''is_online'', ''is_cpp'', ''is_cancelled'', ''site'',
              ''start_time_utc'', ''end_time_utc'', ''teacher_count'',
              ''attendance_yes_count'', ''attendance_no_count''}"
  using output_keys_canonical [OF example_batch] by (simp add: eventsOf_def)

section \<open>Dates: the calendar\<close>

text \<open>
  The year computed by \<open>YearFromTime\<close> is the year of the day: its first day is
  not after the day, and the first day of the next year is. A year has 365 days, or
  366 when it is a leap year.
\<close>

lemma div_bounds:
  fixes a k :: int
  assumes "0 < k"
  shows "k * (a div k) \<le> a" "a < k * (a div k) + k"
proof -
  have "a = k * (a div k) + a mod k" by simp
  moreover have "0 \<le> a mod k" "a mod k < k" using assms by simp_all
  ultimately show "k * (a div k) \<le> a" "a < k * (a div k) + k" by linarith+
qed

lemma DayFromYear_offset:
  "DayFromYear (1970 + m) = 365 * m + (m + 1) div 4 - (m + 69) div 100 + (m + 369) div 400"
proof -
  have "1970 + m - 1970 = m" "1970 + m - 1969 = m + 1" "1970 + m - 1901 = m + 69"
    "1970 + m - 1601 = m + 369" by simp_all
  then show ?thesis unfolding DayFromYear_def by (simp only:)
qed

lemma leap_sum_upper:
  fixes A B C m :: int
  assumes "4 * A \<le> m + 1" "m + 69 < 100 * B + 100" "400 * C \<le> m + 369"
  shows "400 * (365 * m + A - B + C) \<le> 146097 * m + 589"
proof -
  have "400 * (365 * m + A - B + C) = 146000 * m + 400 * A - 400 * B + 400 * C"
    by (simp add: algebra_simps)
  with assms show ?thesis by linarith
qed

lemma leap_sum_lower:
  fixes A B C m :: int
  assumes "m + 1 < 4 * A + 4" "100 * B \<le> m + 69" "m + 369 < 400 * C + 400"
  shows "146097 * m - 506 \<le> 400 * (365 * m + A - B + C)"
proof -
  have "400 * (365 * m + A - B + C) = 146000 * m + 400 * A - 400 * B + 400 * C"
    by (simp add: algebra_simps)
  with assms show ?thesis by linarith
qed

lemma DayFromYear_upper: "400 * DayFromYear (1970 + m) \<le> 146097 * m + 589"
  unfolding DayFromYear_offset by (rule leap_sum_upper; rule div_bounds; simp)

lemma DayFromYear_lower: "146097 * m - 506 \<le> 400 * DayFromYear (1970 + m)"
  unfolding DayFromYear_offset by (rule leap_sum_lower; rule div_bounds; simp)

lemma estimate_low:
  fixes D d n :: int
  assumes "400 * D \<le> 146097 * (n - 1) + 589" "146097 * n \<le> 400 * d"
  shows "D \<le> d"
proof -
  have "146097 * (n - 1) = 146097 * n - 146097" by (simp add: algebra_simps)
  with assms show ?thesis by linarith
qed

lemma estimate_high:
  fixes D d n :: int
  assumes "146097 * (n + 2) - 506 \<le> 400 * D" "400 * d < 146097 * n + 146097"
  shows "d < D"
proof -
  have "146097 * (n + 2) = 146097 * n + 292194" by (simp add: algebra_simps)
  with assms show ?thesis by linarith
qed

lemma year_estimate:
  fixes d :: int
  defines "n \<equiv> (400 * d) div 146097"
  shows "DayFromYear (1970 + (n - 1)) \<le> d" "d < DayFromYear (1970 + (n + 2))"
proof -
  have n: "146097 * n \<le> 400 * d" "400 * d < 146097 * n + 146097"
    unfolding n_def by (rule div_bounds, simp)+
  show "DayFromYear (1970 + (n - 1)) \<le> d"
    by (rule estimate_low [OF DayFromYear_upper n(1)])
  show "d < DayFromYear (1970 + (n + 2))"
    by (rule estimate_high [OF DayFromYear_lower n(2)])
qed

lemma YearFromTime_bounds:
  "DayFromYear (YearFromTime t) \<le> Day t" "Day t < DayFromYear (YearFromTime t + 1)"
proof -
  define n where "n = (400 * Day t) div 146097"
  have e: "DayFromYear (1970 + n - 1) \<le> Day t" "Day t < DayFromYear (1970 + n + 2)"
    using year_estimate [of "Day t"] unfolding n_def by (simp_all add: algebra_simps)
  have y: "YearFromTime t =
     (if DayFromYear (1970 + n + 1) \<le> Day t then 1970 + n + 1
      else if Day t < DayFromYear (1970 + n) then 1970 + n - 1
      else 1970 + n)"
    by (simp add: YearFromTime_def Let_def n_def)
  show "DayFromYear (YearFromTime t) \<le> Day t"
    unfolding y using e by simp
  show "Day t < DayFromYear (YearFromTime t + 1)"
    unfolding y using e by (simp add: algebra_simps)
qed

lemma div_step:
  fixes a k :: int
  assumes "1 < k"
  shows "(a + 1) div k = a div k + (if (a + 1) mod k = 0 then 1 else 0)"
proof -
  define q where "q = a div k"
  define r where "r = a mod k"
  have e: "a = k * q + r" by (simp add: q_def r_def)
  have r: "0 \<le> r" "r < k" using assms by (simp_all add: r_def)
  show ?thesis
  proof (cases "r + 1 = k")
    case True
    have "k * (q + 1) = k * q + k" by (simp add: algebra_simps)
    with e True have s: "a + 1 = k * (q + 1) + 0" by linarith
    have z: "(0::int) \<le> 0" "0 < k" using assms by simp_all
    from int_div_pos_eq [OF s z] int_mod_pos_eq [OF s z] show ?thesis
      by (simp add: q_def)
  next
    case False
    with r have b: "0 \<le> r + 1" "r + 1 < k" by linarith+
    from e have s: "a + 1 = k * q + (r + 1)" by linarith
    from r have "r + 1 \<noteq> 0" by linarith
    with int_div_pos_eq [OF s b] int_mod_pos_eq [OF s b] show ?thesis
      by (simp add: q_def)
  qed
qed

lemma mod_shift:
  fixes y :: int
  shows "(y - 1968) mod 4 = y mod 4" "(y - 1900) mod 100 = y mod 100"
    "(y - 1600) mod 400 = y mod 400"
proof -
  have "y - 1968 = y + 4 * (- 492)" "y - 1900 = y + 100 * (- 19)" "y - 1600 = y + 400 * (- 4)"
    by simp_all
  then show "(y - 1968) mod 4 = y mod 4" "(y - 1900) mod 100 = y mod 100"
    "(y - 1600) mod 400 = y mod 400"
    by (simp_all only: mod_mult_self2)
qed

lemma DaysInYear:
  "DayFromYear (y + 1) = DayFromYear y + (if InLeapYear y then 366 else 365)"
proof -
  have a: "(y + 1 - 1969) div 4 = (y - 1969) div 4 + (if y mod 4 = 0 then 1 else 0)"
    using div_step [of 4 "y - 1969"] mod_shift(1) [of y] by (simp add: algebra_simps)
  have b: "(y + 1 - 1901) div 100 = (y - 1901) div 100 + (if y mod 100 = 0 then 1 else 0)"
    using div_step [of 100 "y - 1901"] mod_shift(2) [of y] by (simp add: algebra_simps)
  have c: "(y + 1 - 1601) div 400 = (y - 1601) div 400 + (if y mod 400 = 0 then 1 else 0)"
    using div_step [of 400 "y - 1601"] mod_shift(3) [of y] by (simp add: algebra_simps)
  have m: "y mod 400 = 0 \<Longrightarrow> y mod 100 = 0" "y mod 100 = 0 \<Longrightarrow> y mod 4 = 0"
    by (auto simp: mod_eq_0_iff_dvd elim: dvd_trans [rotated])
  have d: "DayFromYear (y + 1) = 365 * (y - 1970) + 365 + (y + 1 - 1969) div 4
             - (y + 1 - 1901) div 100 + (y + 1 - 1601) div 400"
    unfolding DayFromYear_def by (simp add: algebra_simps)
  consider (common) "y mod 4 \<noteq> 0" "y mod 100 \<noteq> 0" "y mod 400 \<noteq> 0"
    | (leap) "y mod 4 = 0" "y mod 100 \<noteq> 0" "y mod 400 \<noteq> 0"
    | (century) "y mod 4 = 0" "y mod 100 = 0" "y mod 400 \<noteq> 0"
    | (fourth) "y mod 4 = 0" "y mod 100 = 0" "y mod 400 = 0"
    using m by metis
  then show ?thesis
  proof cases
    case common
    then show ?thesis unfolding d a b c DayFromYear_def InLeapYear_def by simp
  next
    case leap
    then show ?thesis unfolding d a b c DayFromYear_def InLeapYear_def by simp
  next
    case century
    then show ?thesis unfolding d a b c DayFromYear_def InLeapYear_def by simp
  next
    case fourth
    then show ?thesis unfolding d a b c DayFromYear_def InLeapYear_def by simp
  qed
qed

text \<open>
  Hence the day within the year, the month and the day of the month are in range,
  and every two-digit field of the formatted date has two digits.
\<close>

lemma months_list: "[1..<12] = [1, 2, 3, 4, 5, 6, 7, 8, 9, 10, 11::nat]"
  by (simp add: upt_rec)

lemma monthOf_common:
  assumes "0 \<le> d" "d < 365"
  shows "monthOf False d \<le> 11 \<and> monthStart False (monthOf False d) \<le> d
         \<and> d < monthStart False (monthOf False d + 1)"
  using assms unfolding monthOf_def months_list
  by (simp add: monthStart_def)

lemma monthOf_leap:
  assumes "0 \<le> d" "d < 366"
  shows "monthOf True d \<le> 11 \<and> monthStart True (monthOf True d) \<le> d
         \<and> d < monthStart True (monthOf True d + 1)"
  using assms unfolding monthOf_def months_list
  by (simp add: monthStart_def)

lemma DayWithinYear_range:
  "0 \<le> DayWithinYear t"
  "DayWithinYear t < (if InLeapYear (YearFromTime t) then 366 else 365)"
proof -
  show "0 \<le> DayWithinYear t"
    using YearFromTime_bounds(1) [of t] by (simp add: DayWithinYear_def)
  show "DayWithinYear t < (if InLeapYear (YearFromTime t) then 366 else 365)"
    using YearFromTime_bounds(2) [of t] DaysInYear [of "YearFromTime t"]
    by (simp add: DayWithinYear_def split: if_splits)
qed

lemma MonthFromTime_eq: "MonthFromTime t = monthOf (InLeapYear (YearFromTime t)) (DayWithinYear t)"
  by (simp add: MonthFromTime_def)

lemma month_length:
  "m \<le> 11 \<Longrightarrow> monthStart leap (m + 1) - monthStart leap m \<le> 31"
proof -
  assume "m \<le> 11"
  then have "m \<in> {0, 1, 2, 3, 4, 5, 6, 7, 8, 9, 10, 11}" by (simp add: numeral_eq_Suc) arith
  then show ?thesis by (auto simp: monthStart_def)
qed

lemma month_date_range:
  "MonthFromTime t \<le> 11" "1 \<le> DateFromTime t" "DateFromTime t \<le> 31"
proof -
  define leap where "leap = InLeapYear (YearFromTime t)"
  define d where "d = DayWithinYear t"
  define k where "k = monthOf leap d"
  have r: "0 \<le> d" "d < (if leap then 366 else 365)"
    using DayWithinYear_range [of t] by (simp_all add: d_def leap_def)
  have m: "k \<le> 11 \<and> monthStart leap k \<le> d \<and> d < monthStart leap (k + 1)"
  proof (cases leap)
    case True
    with r monthOf_leap [of d] show ?thesis by (simp add: k_def)
  next
    case False
    with r monthOf_common [of d] show ?thesis by (simp add: k_def)
  qed
  have e: "MonthFromTime t = k" "DateFromTime t = d - monthStart leap k + 1"
    by (simp_all add: MonthFromTime_eq DateFromTime_def k_def d_def leap_def)
  from m show "MonthFromTime t \<le> 11" by (simp add: e)
  from m show "1 \<le> DateFromTime t" by (simp add: e)
  from m month_length [of k leap] show "DateFromTime t \<le> 31" unfolding e by linarith
qed

lemma time_ranges:
  "0 \<le> HourFromTime t" "HourFromTime t < 24" "0 \<le> MinFromTime t" "MinFromTime t < 60"
  "0 \<le> SecFromTime t" "SecFromTime t < 60"
  by (simp_all add: HourFromTime_def MinFromTime_def SecFromTime_def)

lemma decimal_length1: "n < 10 \<Longrightarrow> length (decimal n) = 1"
  by (subst decimal.simps) simp

lemma decimal_length_step: "10 \<le> n \<Longrightarrow> length (decimal n) = length (decimal (n div 10)) + 1"
  by (subst decimal.simps) simp

lemma decimal_length2: "10 \<le> n \<Longrightarrow> n < 100 \<Longrightarrow> length (decimal n) = 2"
  by (simp add: decimal_length_step decimal_length1)

lemma decimal_length4: "1000 \<le> n \<Longrightarrow> n < 10000 \<Longrightarrow> length (decimal n) = 4"
proof -
  assume a: "1000 \<le> n" "n < 10000"
  then have "10 \<le> n" "10 \<le> n div 10" "10 \<le> n div 10 div 10" "n div 10 div 10 < 100"
    by simp_all
  then show ?thesis
    by (simp add: decimal_length_step [of n] decimal_length_step [of "n div 10"] decimal_length2)
qed

lemma pad_length: "0 \<le> n \<Longrightarrow> n < 100 \<Longrightarrow> length (pad n) = 2"
proof -
  assume a: "0 \<le> n" "n < 100"
  show ?thesis
  proof (cases "n < 10")
    case True
    with a have "length (decimal (nat n)) = 1" by (simp add: decimal_length1)
    with a show ?thesis by (simp add: pad_def padStart_def Number_toString_def)
  next
    case False
    with a have "length (decimal (nat n)) = 2" by (simp add: decimal_length2)
    with a show ?thesis by (simp add: pad_def padStart_def Number_toString_def)
  qed
qed

lemma excelText_length:
  assumes "1000 \<le> YearFromTime t" "YearFromTime t \<le> 9999"
  shows "length (excelText t) = 19"
proof -
  have y: "length (Number_toString (YearFromTime t)) = 4"
    using assms by (simp add: Number_toString_def decimal_length4)
  have p: "length (pad (int (MonthFromTime t) + 1)) = 2" "length (pad (DateFromTime t)) = 2"
    "length (pad (HourFromTime t)) = 2" "length (pad (MinFromTime t)) = 2"
    "length (pad (SecFromTime t)) = 2"
    using month_date_range [of t] time_ranges [of t] by (simp_all add: pad_length)
  show ?thesis unfolding excelText_def by (simp add: y p)
qed

section \<open>The exporter: headers and rows\<close>

lemma set_firstSeen: "set (firstSeen ks) = set ks"
  by (simp add: firstSeen_def)

lemma distinct_firstSeen: "distinct (firstSeen ks)"
  by (simp add: firstSeen_def)

lemma firstSeen_snoc:
  "firstSeen (ks @ [k]) = (if k \<in> set ks then firstSeen ks else firstSeen ks @ [k])"
  by (simp add: firstSeen_def)

lemma firstSeen_distinct: "distinct ks \<Longrightarrow> firstSeen ks = ks"
  by (simp add: firstSeen_def distinct_remdups_id)

lemma firstSeen_absorb: "firstSeen (firstSeen xs @ ys) = firstSeen (xs @ ys)"
proof (induction ys rule: rev_induct)
  case Nil
  show ?case by (simp add: firstSeen_distinct distinct_firstSeen)
next
  case (snoc y ys)
  have "firstSeen ((firstSeen xs @ ys) @ [y]) = firstSeen ((xs @ ys) @ [y])"
    unfolding firstSeen_snoc using snoc.IH by (simp add: set_firstSeen)
  then show ?case by simp
qed

lemma foldl_addKey: "distinct acc \<Longrightarrow> foldl addKey acc ks = firstSeen (acc @ ks)"
proof (induction ks rule: rev_induct)
  case Nil
  then show ?case by (simp add: firstSeen_distinct)
next
  case (snoc k ks)
  have "firstSeen (acc @ ks @ [k]) = firstSeen ((acc @ ks) @ [k])" by simp
  also have "\<dots> = addKey (firstSeen (acc @ ks)) k"
    unfolding firstSeen_snoc by (simp add: addKey_def set_firstSeen)
  finally show ?case using snoc by simp
qed

lemma collectKeys_eq:
  "distinct acc \<Longrightarrow>
   collectKeys acc r = (if mappingShaped r then firstSeen (acc @ Object_keys r) else acc)"
  by (simp add: collectKeys_def mappingShaped_def foldl_addKey)

lemma foldl_collectKeys:
  "distinct acc \<Longrightarrow>
   foldl collectKeys acc recs =
     firstSeen (acc @ concat (map Object_keys (filter mappingShaped recs)))"
proof (induction recs arbitrary: acc)
  case Nil
  then show ?case by (simp add: firstSeen_distinct)
next
  case (Cons r recs)
  show ?case
  proof (cases "mappingShaped r")
    case True
    have "foldl collectKeys acc (r # recs)
            = foldl collectKeys (firstSeen (acc @ Object_keys r)) recs"
      using True Cons.prems by (simp add: collectKeys_eq)
    also have "\<dots> = firstSeen (firstSeen (acc @ Object_keys r)
                         @ concat (map Object_keys (filter mappingShaped recs)))"
      by (rule Cons.IH) (rule distinct_firstSeen)
    also have "\<dots> = firstSeen ((acc @ Object_keys r)
                         @ concat (map Object_keys (filter mappingShaped recs)))"
      by (rule firstSeen_absorb)
    finally show ?thesis using True by simp
  next
    case False
    then show ?thesis using Cons by (simp add: collectKeys_eq)
  qed
qed

lemma headersOf_firstSeen:
  "headersOf recs = firstSeen (concat (map Object_keys (filter mappingShaped recs)))"
  using foldl_collectKeys [of "[]" recs] by (simp add: headersOf_def)


lemma csvCell_defined:
  "\<not> nullish r \<Longrightarrow> csvCell host parse r h = Inr (formatCell parse h (lookupProp host r h))"
  by (simp add: csvCell_def readProp_def)

lemma csvCell_null: "nullish r \<Longrightarrow> csvCell host parse r h = Inl TypeError"
  by (simp add: csvCell_def readProp_def)




lemma formatCell_undefined: "formatCell parse h JUndefined = []"
  by (simp add: formatCell_def formatDateForExcel_def escapeCsvCell_def)



subsection \<open>Header union and empty cells\<close>

text \<open>
  A header under which a record has no property of its own and inherits nothing
  gives the empty cell.
\<close>

lemma absent_cell_empty:
  "\<not> nullish r \<Longrightarrow> ownProp r h = None \<Longrightarrow> host r h = None \<Longrightarrow> csvCell host parse r h = Inr []"
  by (simp add: csvCell_defined lookupProp_def formatCell_undefined)

text \<open>
  C4 says that for every list of records each header with no key present in a
  record renders as an empty cell. The headers are as it says (lemma
  \<open>headersOf_firstSeen\<close>), but the cells are not. \<^verbatim>\<open>row[header]\<close> also finds what
  the record inherits: when an object has no key \<open>h\<close> and inherits a function
  under that name, as every object does for \<^verbatim>\<open>constructor\<close> or \<^verbatim>\<open>toString\<close>, the
  cell under a header \<open>h\<close> (other than the two date columns) is the text of that
  function and not empty. And on a record that is \<^verbatim>\<open>null\<close> or \<^verbatim>\<open>undefined\<close>, which
  the header loop skips, \<^verbatim>\<open>row[header]\<close> raises \<^verbatim>\<open>TypeError\<close>.
\<close>

theorem missing_key_cell_not_empty:
  assumes "h \<notin> fst ` set kvs" and "host (JObj kvs) h = Some (JFun t)" and "t \<noteq> []"
    and "h \<noteq> ''start_time_utc''" and "h \<noteq> ''end_time_utc''"
  shows "csvCell host parse (JObj kvs) h = Inr (escapeCsvCell (JFun t))
       \<and> escapeCsvCell (JFun t) \<noteq> []
       \<and> csvCell host parse JNull h = Inl TypeError
       \<and> csvCell host parse JUndefined h = Inl TypeError"
proof (intro conjI)
  from assms(1) have "ownProp (JObj kvs) h = None"
    by (simp add: map_of_eq_None_iff [THEN iffD2])
  with assms(2) have "lookupProp host (JObj kvs) h = JFun t" by (simp add: lookupProp_def)
  with assms(4,5) show "csvCell host parse (JObj kvs) h = Inr (escapeCsvCell (JFun t))"
    by (simp add: csvCell_defined formatCell_def)
  from assms(3) show "escapeCsvCell (JFun t) \<noteq> []"
    by (simp add: escapeCsvCell_def)
  show "csvCell host parse JNull h = Inl TypeError" by (simp add: csvCell_null)
  show "csvCell host parse JUndefined h = Inl TypeError" by (simp add: csvCell_null)
qed

text \<open>
  The records \<^verbatim>\<open>[{constructor:1},{}]\<close>: the second record has no key
  \<^verbatim>\<open>constructor\<close>, and its row is the text of the function \<^verbatim>\<open>Object\<close>. The
  records \<^verbatim>\<open>[{a:1}, null]\<close>: the call raises.
\<close>

theorem missing_key_cell_not_empty_example:
  "csvCell objectPrototype Date_parse_iso (JObj []) ''constructor''
     = Inr ''function Object() { [native code] }''
   \<and> csvString objectPrototype Date_parse_iso [JObj [(''constructor'', JNum 1)], JObj []]
     = Inr (BOM @ ''constructor'' @ [CHR 0x0A] @ ''1'' @ [CHR 0x0A] @
            ''function Object() { [native code] }'')
   \<and> csvString objectPrototype Date_parse_iso [JObj [(''a'', JNum 1)], JNull] = Inl TypeError"
proof (intro conjI)
  have e: "escapeCsvCell (JFun ''function Object() { [native code] }'')
             = ''function Object() { [native code] }''"
    by (simp add: escapeCsvCell_def)
  have h: "objectPrototype (JObj []) ''constructor''
             = Some (JFun ''function Object() { [native code] }'')"
    by (simp add: objectPrototype_def)
  from missing_key_cell_not_empty [where kvs = "[]" and h = "''constructor''"
      and host = objectPrototype and parse = Date_parse_iso, OF _ h]
  show "csvCell objectPrototype Date_parse_iso (JObj []) ''constructor''
     = Inr ''function Object() { [native code] }''"
    by (simp add: e)
  show "csvString objectPrototype Date_parse_iso [JObj [(''constructor'', JNum 1)], JObj []]
     = Inr (BOM @ ''constructor'' @ [CHR 0x0A] @ ''1'' @ [CHR 0x0A] @
            ''function Object() { [native code] }'')"
    by code_simp
  show "csvString objectPrototype Date_parse_iso [JObj [(''a'', JNum 1)], JNull] = Inl TypeError"
    by code_simp
qed

subsection \<open>Date cells\<close>

text \<open>The characters of the formatted date.\<close>

lemma digit_char: "d < 10 \<Longrightarrow> digit d \<in> set ''0123456789''"
proof -
  assume "d < 10"
  then have "d \<in> {0, 1, 2, 3, 4, 5, 6, 7, 8, 9}" by auto
  then show ?thesis by (auto simp: digit_def)
qed

lemma decimal_chars: "set (decimal n) \<subseteq> set ''0123456789''"
proof (induction n rule: decimal.induct)
  case (1 n)
  show ?case
  proof (cases "n < 10")
    case True
    then show ?thesis using digit_char [of n] by (subst decimal.simps) simp
  next
    case False
    have "n mod 10 < 10" by simp
    from digit_char [OF this] 1 [OF False] False show ?thesis
      by (subst decimal.simps) simp
  qed
qed

lemma Number_toString_chars: "set (Number_toString n) \<subseteq> set ''-0123456789''"
proof -
  define ds where "ds = set ''0123456789''"
  have s: "set ''-0123456789'' = insert CHR ''-'' ds" unfolding ds_def by simp
  have "set (decimal k) \<subseteq> ds" for k unfolding ds_def by (rule decimal_chars)
  then have "set (Number_toString n) \<subseteq> insert CHR ''-'' ds"
    unfolding Number_toString_def by (simp add: subset_insertI2)
  then show ?thesis unfolding s .
qed

lemma pad_chars: "set (pad n) \<subseteq> set ''-0123456789''"
proof -
  define ds where "ds = set ''-0123456789''"
  have z: "CHR ''0'' \<in> ds" unfolding ds_def by simp
  have "set (Number_toString n) \<subseteq> ds" unfolding ds_def by (rule Number_toString_chars)
  with z have "set (pad n) \<subseteq> ds"
    unfolding pad_def padStart_def set_append by (intro Un_least) auto
  then show ?thesis unfolding ds_def .
qed

lemma excelText_chars: "set (excelText t) \<subseteq> set ''-0123456789 :''"
proof -
  define allowed where "allowed = set ''-0123456789 :''"
  have a: "set ''-0123456789'' \<subseteq> allowed" unfolding allowed_def by simp
  have n: "set (Number_toString k) \<subseteq> allowed" for k
    by (rule order_trans [OF Number_toString_chars a])
  have p: "set (pad k) \<subseteq> allowed" for k
    by (rule order_trans [OF pad_chars a])
  have c: "set ''-'' \<subseteq> allowed" "set '' '' \<subseteq> allowed" "set '':'' \<subseteq> allowed"
    unfolding allowed_def by simp_all
  have "set (excelText t) \<subseteq> allowed"
    unfolding excelText_def set_append
    by (intro Un_least n p c)
  then show ?thesis unfolding allowed_def .
qed

lemma excelText_plain:
  "CHR 0x22 \<notin> set (excelText t)" "CHR '','' \<notin> set (excelText t)" "CHR 0x0A \<notin> set (excelText t)"
proof -
  define allowed where "allowed = set ''-0123456789 :''"
  have q: "CHR 0x22 \<notin> allowed" "CHR '','' \<notin> allowed" "CHR 0x0A \<notin> allowed"
    by (simp_all add: allowed_def)
  have "set (excelText t) \<subseteq> allowed" unfolding allowed_def by (rule excelText_chars)
  with q show "CHR 0x22 \<notin> set (excelText t)" "CHR '','' \<notin> set (excelText t)"
    "CHR 0x0A \<notin> set (excelText t)"
    by blast+
qed

lemma escape_excelText: "escapeCsvCell (JStr (excelText t)) = excelText t"
  by (simp add: escapeCsvCell_def testClass_iff excelText_plain)

lemma escape_empty: "escapeCsvCell (JStr []) = []"
  by (simp add: escapeCsvCell_def)


text \<open>
  C6, as amended. Only under the headers \<^verbatim>\<open>start_time_utc\<close> and \<^verbatim>\<open>end_time_utc\<close> is
  a cell treated as a date; under any other header it is the escaped value. There, a
  non-empty string is parsed: when it is no valid date, or its UTC year is before
  1980, the cell is the string itself (passed through the escaping), and otherwise it
  is the text \<open>excelText\<close> of the UTC calendar fields, which the escaping leaves
  as it is: for a year up to 9999 the nineteen characters \<^verbatim>\<open>YYYY-MM-DD HH:MM:SS\<close>,
  the year in decimal and month, day, hour, minute and second padded with a zero to
  two digits (a later year has more digits). Any other value,
  the empty string, a number, a boolean, \<^verbatim>\<open>null\<close> or a missing key, gives the empty
  cell. The cell of a record that is neither \<^verbatim>\<open>null\<close> nor \<^verbatim>\<open>undefined\<close> is this
  text for the value read from the record.
\<close>

theorem date_cell_formatting:
  "formatCell parse h v =
     (if h = ''start_time_utc'' \<or> h = ''end_time_utc'' then
        (case v of
           JStr s \<Rightarrow>
             if s = [] then []
             else (case Date_new parse (JStr s) of
                     None \<Rightarrow> escapeCsvCell (JStr s)
                   | Some t \<Rightarrow>
                       if YearFromTime t < 1980 then escapeCsvCell (JStr s) else excelText t)
         | _ \<Rightarrow> [])
      else escapeCsvCell v)
   \<and> (\<forall>r. \<not> nullish r \<longrightarrow> csvCell host parse r h = Inr (formatCell parse h (lookupProp host r h)))
   \<and> (\<forall>t. 1980 \<le> YearFromTime t \<and> YearFromTime t \<le> 9999 \<longrightarrow>
          length (excelText t) = 19 \<and>
          excelText t =
            decimal (nat (YearFromTime t)) @ ''-'' @
            padStart 2 (CHR ''0'') (decimal (MonthFromTime t + 1)) @ ''-'' @
            padStart 2 (CHR ''0'') (decimal (nat (DateFromTime t))) @ '' '' @
            padStart 2 (CHR ''0'') (decimal (nat (HourFromTime t))) @ '':'' @
            padStart 2 (CHR ''0'') (decimal (nat (MinFromTime t))) @ '':'' @
            padStart 2 (CHR ''0'') (decimal (nat (SecFromTime t))))"
proof (intro conjI)
  show "\<forall>r. \<not> nullish r \<longrightarrow> csvCell host parse r h = Inr (formatCell parse h (lookupProp host r h))"
    by (simp add: csvCell_defined)
  show "\<forall>t. 1980 \<le> YearFromTime t \<and> YearFromTime t \<le> 9999 \<longrightarrow>
          length (excelText t) = 19 \<and>
          excelText t =
            decimal (nat (YearFromTime t)) @ ''-'' @
            padStart 2 (CHR ''0'') (decimal (MonthFromTime t + 1)) @ ''-'' @
            padStart 2 (CHR ''0'') (decimal (nat (DateFromTime t))) @ '' '' @
            padStart 2 (CHR ''0'') (decimal (nat (HourFromTime t))) @ '':'' @
            padStart 2 (CHR ''0'') (decimal (nat (MinFromTime t))) @ '':'' @
            padStart 2 (CHR ''0'') (decimal (nat (SecFromTime t)))"
  proof (intro allI impI conjI)
    fix t assume y: "1980 \<le> YearFromTime t \<and> YearFromTime t \<le> 9999"
    then show "length (excelText t) = 19" by (simp add: excelText_length)
    have n: "Number_toString (YearFromTime t) = decimal (nat (YearFromTime t))"
      "pad (int (MonthFromTime t) + 1) = padStart 2 (CHR ''0'') (decimal (MonthFromTime t + 1))"
      "pad (DateFromTime t) = padStart 2 (CHR ''0'') (decimal (nat (DateFromTime t)))"
      "pad (HourFromTime t) = padStart 2 (CHR ''0'') (decimal (nat (HourFromTime t)))"
      "pad (MinFromTime t) = padStart 2 (CHR ''0'') (decimal (nat (MinFromTime t)))"
      "pad (SecFromTime t) = padStart 2 (CHR ''0'') (decimal (nat (SecFromTime t)))"
      using y month_date_range [of t] time_ranges [of t]
      by (simp_all add: pad_def Number_toString_def nat_add_distrib)
    show "excelText t =
            decimal (nat (YearFromTime t)) @ ''-'' @
            padStart 2 (CHR ''0'') (decimal (MonthFromTime t + 1)) @ ''-'' @
            padStart 2 (CHR ''0'') (decimal (nat (DateFromTime t))) @ '' '' @
            padStart 2 (CHR ''0'') (decimal (nat (HourFromTime t))) @ '':'' @
            padStart 2 (CHR ''0'') (decimal (nat (MinFromTime t))) @ '':'' @
            padStart 2 (CHR ''0'') (decimal (nat (SecFromTime t)))"
      unfolding excelText_def n ..
  qed
  show "formatCell parse h v =
     (if h = ''start_time_utc'' \<or> h = ''end_time_utc'' then
        (case v of
           JStr s \<Rightarrow>
             if s = [] then []
             else (case Date_new parse (JStr s) of
                     None \<Rightarrow> escapeCsvCell (JStr s)
                   | Some t \<Rightarrow>
                       if YearFromTime t < 1980 then escapeCsvCell (JStr s) else excelText t)
         | _ \<Rightarrow> [])
      else escapeCsvCell v)"
  proof (cases "h = ''start_time_utc'' \<or> h = ''end_time_utc''")
    case False
    then show ?thesis by (simp add: formatCell_def)
  next
    case True
    have "escapeCsvCell (JStr (formatDateForExcel parse v)) =
        (case v of
           JStr s \<Rightarrow>
             if s = [] then []
             else (case Date_new parse (JStr s) of
                     None \<Rightarrow> escapeCsvCell (JStr s)
                   | Some t \<Rightarrow>
                       if YearFromTime t < 1980 then escapeCsvCell (JStr s) else excelText t)
         | _ \<Rightarrow> [])"
      by (cases v)
         (simp_all add: formatDateForExcel_def escape_empty escape_excelText
            split: option.splits)
    with True show ?thesis by (simp only: formatCell_def if_True)
  qed
qed


lemma example_date:
  "Date_new Date_parse_iso (JStr ''2024-01-15T10:00:00.000Z'') = Some 1705312800000"
  "YearFromTime 1705312800000 = 2024"
  "excelText 1705312800000 = ''2024-01-15 10:00:00''"
  "Date_new Date_parse_iso (JStr ''bad-date'') = None"
  "Date_new Date_parse_iso (JStr ''1979-12-31T23:59:59.999Z'') = Some 315532799999"
  "YearFromTime 315532799999 = 1979"
  by code_simp+


text \<open>
  \<^verbatim>\<open>2024-01-15T10:00:00.000Z\<close> becomes \<^verbatim>\<open>2024-01-15 10:00:00\<close>; \<^verbatim>\<open>bad-date\<close> and a
  date in 1979 are kept; a boolean gives the empty cell; under another header the
  text is kept.
\<close>

theorem date_cell_formatting_example:
  "formatCell Date_parse_iso ''start_time_utc'' (JStr ''2024-01-15T10:00:00.000Z'')
     = ''2024-01-15 10:00:00''
   \<and> formatCell Date_parse_iso ''start_time_utc'' (JStr ''bad-date'') = ''bad-date''
   \<and> formatCell Date_parse_iso ''end_time_utc'' (JStr ''1979-12-31T23:59:59.999Z'')
     = ''1979-12-31T23:59:59.999Z''
   \<and> formatCell Date_parse_iso ''end_time_utc'' (JBool True) = []
   \<and> formatCell Date_parse_iso ''title'' (JStr ''2024-01-15T10:00:00.000Z'')
     = ''2024-01-15T10:00:00.000Z''
   \<and> csvCell objectPrototype Date_parse_iso (JObj [(''start_time_utc'', JStr ''2024-01-15T10:00:00.000Z'')])
       ''start_time_utc'' = Inr ''2024-01-15 10:00:00''"
proof -
  have e: "escapeCsvCell (JStr ''bad-date'') = ''bad-date''"
    "escapeCsvCell (JStr ''1979-12-31T23:59:59.999Z'') = ''1979-12-31T23:59:59.999Z''"
    "escapeCsvCell (JStr ''2024-01-15T10:00:00.000Z'') = ''2024-01-15T10:00:00.000Z''"
    by (simp_all add: escapeCsvCell_def)
  have 1: "formatCell Date_parse_iso ''start_time_utc'' (JStr ''2024-01-15T10:00:00.000Z'')
     = ''2024-01-15 10:00:00''"
    using date_cell_formatting [of Date_parse_iso "''start_time_utc''" "JStr ''2024-01-15T10:00:00.000Z''"]
    by (simp add: example_date del: Date_new.simps)
  have 2: "formatCell Date_parse_iso ''start_time_utc'' (JStr ''bad-date'') = ''bad-date''"
    using date_cell_formatting [of Date_parse_iso "''start_time_utc''" "JStr ''bad-date''"]
    by (simp add: example_date e del: Date_new.simps)
  have 3: "formatCell Date_parse_iso ''end_time_utc'' (JStr ''1979-12-31T23:59:59.999Z'')
     = ''1979-12-31T23:59:59.999Z''"
    using date_cell_formatting [of Date_parse_iso "''end_time_utc''" "JStr ''1979-12-31T23:59:59.999Z''"]
    by (simp add: example_date e del: Date_new.simps)
  have 4: "formatCell Date_parse_iso ''end_time_utc'' (JBool True) = []"
    using date_cell_formatting [of Date_parse_iso "''end_time_utc''" "JBool True"]
    by simp
  have 5: "formatCell Date_parse_iso ''title'' (JStr ''2024-01-15T10:00:00.000Z'')
     = ''2024-01-15T10:00:00.000Z''"
    using date_cell_formatting [of Date_parse_iso "''title''" "JStr ''2024-01-15T10:00:00.000Z''"]
    by (simp add: e)
  have 6: "csvCell objectPrototype Date_parse_iso (JObj [(''start_time_utc'', JStr ''2024-01-15T10:00:00.000Z'')])
       ''start_time_utc'' = Inr ''2024-01-15 10:00:00''"
    using date_cell_formatting [where parse = Date_parse_iso and h = "''start_time_utc''"
        and v = "JStr ''2024-01-15T10:00:00.000Z''" and host = objectPrototype] 1
    by (simp add: lookupProp_def)
  from 1 2 3 4 5 6 show ?thesis by (intro conjI)
qed


text \<open>
  C6 as stated, for every cell value, fails on a value that is not a string: the
  number \<^verbatim>\<open>1705312800000\<close> is a valid timestamp in 2024, so the wording gives
  \<^verbatim>\<open>2024-01-15 10:00:00\<close> (and the raw text \<^verbatim>\<open>1705312800000\<close> if it were taken as
  unparseable), but the code's test \<^verbatim>\<open>typeof dateString !== 'string'\<close> makes the
  cell empty.
\<close>

theorem date_cell_counterexample:
  "formatCell Date_parse_iso ''start_time_utc'' (JNum 1705312800000) = []
   \<and> specFormatDate Date_parse_iso (JNum 1705312800000) = ''2024-01-15 10:00:00''
   \<and> toString (JNum 1705312800000) = ''1705312800000''
   \<and> csvString objectPrototype Date_parse_iso [JObj [(''start_time_utc'', JNum 1705312800000)]]
       = Inr (BOM @ ''start_time_utc'' @ [CHR 0x0A])"
proof (intro conjI)
  show "formatCell Date_parse_iso ''start_time_utc'' (JNum 1705312800000) = []"
    by code_simp
  show "specFormatDate Date_parse_iso (JNum 1705312800000) = ''2024-01-15 10:00:00''"
    by code_simp
  show "toString (JNum 1705312800000) = ''1705312800000''"
    by (simp add: Number_toString_def decimal.simps digit_def)
  show "csvString objectPrototype Date_parse_iso [JObj [(''start_time_utc'', JNum 1705312800000)]]
       = Inr (BOM @ ''start_time_utc'' @ [CHR 0x0A])"
    by code_simp
qed

section \<open>The exporter: the whole call\<close>

subsection \<open>Invalid input\<close>

text \<open>
  C7. When the argument is absent, is not an array or is the empty array (that is,
  when it is not an array with at least one element), the call returns normally,
  writes its one diagnostic to the console and changes nothing else: no file is
  saved.
\<close>

theorem empty_input_no_artifact:
  assumes "\<forall>x xs. jsonData \<noteq> JArr (x # xs)"
  shows "downloadJsonAsCsv host parse jsonData filename w =
           Inr (w\<lparr>console := console w @
             [''Invalid or empty data provided. Please provide an array of objects.'']\<rparr>)"
proof -
  have "emptyInput jsonData"
  proof (cases jsonData)
    case (JArr xs)
    with assms show ?thesis by (cases xs) (simp_all add: emptyInput_def)
  qed (simp_all add: emptyInput_def)
  then show ?thesis by (simp add: downloadJsonAsCsv_def)
qed


text \<open>The empty array, \<^verbatim>\<open>undefined\<close> and an object that is no array.\<close>

theorem empty_input_no_artifact_example:
  "downloadJsonAsCsv objectPrototype Date_parse_iso (JArr []) None
      \<lparr>console = [], saved = [], downloadAttribute = True\<rparr>
    = Inr \<lparr>console = [''Invalid or empty data provided. Please provide an array of objects.''],
           saved = [], downloadAttribute = True\<rparr>
   \<and> downloadJsonAsCsv objectPrototype Date_parse_iso JUndefined (Some ''out.csv'')
      \<lparr>console = [], saved = [], downloadAttribute = True\<rparr>
    = Inr \<lparr>console = [''Invalid or empty data provided. Please provide an array of objects.''],
           saved = [], downloadAttribute = True\<rparr>
   \<and> downloadJsonAsCsv objectPrototype Date_parse_iso (JObj [(''a'', JNum 1)]) None
      \<lparr>console = [], saved = [], downloadAttribute = True\<rparr>
    = Inr \<lparr>console = [''Invalid or empty data provided. Please provide an array of objects.''],
           saved = [], downloadAttribute = True\<rparr>"
  using empty_input_no_artifact [of "JArr []" objectPrototype Date_parse_iso None
          "\<lparr>console = [], saved = [], downloadAttribute = True\<rparr>"]
    empty_input_no_artifact [of JUndefined objectPrototype Date_parse_iso "Some ''out.csv''"
          "\<lparr>console = [], saved = [], downloadAttribute = True\<rparr>"]
    empty_input_no_artifact [of "JObj [(''a'', JNum 1)]" objectPrototype Date_parse_iso None
          "\<lparr>console = [], saved = [], downloadAttribute = True\<rparr>"]
  by simp


subsection \<open>The serialized text\<close>



end
